theory Spec2Isabelle
  imports Main "HOL-Library.AList"
begin

section \<open>The peer session manager of NextMeet (src/rtc.js, class RTCManager)\<close>

text \<open>
  The manager keeps two JavaScript \<^verbatim>\<open>Map\<close>s from peer id to an object
  (\<^verbatim>\<open>peerConnections\<close>, \<^verbatim>\<open>dataChannels\<close>), the local media stream and the callback
  lists of its event dispatcher. The objects are \<^verbatim>\<open>RTCPeerConnection\<close>s and
  \<^verbatim>\<open>RTCDataChannel\<close>s of the browser: they have identity, the maps and the closures of
  the event handlers share them, and \<^verbatim>\<open>createPeerConnection\<close> can leave an object alive
  that no map refers to any more. They are therefore kept in an explicit store, a list
  per kind of object that is indexed by reference; a new object is appended.

  A JavaScript \<^verbatim>\<open>Map\<close> iterates in insertion order and \<^verbatim>\<open>set\<close> on a present key keeps
  the key's position: it is an association list with \<open>map_of\<close> for \<^verbatim>\<open>get\<close>,
  \<open>AList.update\<close> for \<^verbatim>\<open>set\<close>, \<open>AList.delete\<close> for \<^verbatim>\<open>delete\<close> and \<open>[]\<close> for \<^verbatim>\<open>clear\<close>.

  The \<^verbatim>\<open>async\<close> methods are modelled as atomic steps: each runs to completion before
  the next operation or transport event is taken. \<^verbatim>\<open>replaceTrack\<close> and \<^verbatim>\<open>getStats\<close> read
  the connections and change nothing of the manager; they are left out, and so are the
  \<^verbatim>\<open>settings\<close> and the list of STUN servers, which no method reads after construction.
\<close>

subsection \<open>Values\<close>

type_synonym peer_id = string
type_synonym ref = nat
type_synonym track = string
type_synonym payload = string

datatype json =
    JNull | JBool bool | JNum int | JStr string
  | JArr "json list" | JObj "(string \<times> json) list"

text \<open>
  A message handed to \<^verbatim>\<open>sendMessage\<close> or \<^verbatim>\<open>broadcast\<close> is any JavaScript value: a tree that
  \<^verbatim>\<open>JSON.stringify\<close> serialises, or a value on which it throws a \<^verbatim>\<open>TypeError\<close> (one that
  refers to itself, or holds a \<^verbatim>\<open>BigInt\<close>).
\<close>

datatype js_value = Tree json | Unserialisable

datatype sdp_type = SdpOffer | SdpAnswer

datatype description = Description sdp_type string

datatype candidate = Candidate string "string option" "nat option"

datatype connection_state =
  CNew | CConnecting | CConnected | CDisconnected | CFailed | CClosed

datatype ready_state = ChConnecting | ChOpen | ChClosing | ChClosed

text \<open>
  What a JavaScript call can throw here: the \<^verbatim>\<open>TypeError\<close> of the language, the
  \<^verbatim>\<open>InvalidStateError\<close> and \<^verbatim>\<open>OperationError\<close> of the browser's objects, and whatever a
  registered callback throws (tagged with the callback that threw it).
\<close>

datatype exn = TypeError | InvalidStateError | OperationError | CallbackError nat

datatype 'a completion = Return 'a | Throw exn

text \<open>The single argument that \<^verbatim>\<open>emit\<close> hands to the callbacks of an event.\<close>

datatype event_data =
    IceCandidateData peer_id candidate
  | StateData peer_id connection_state
  | IceStateData peer_id string
  | RemoteTrackData peer_id "track list list" track
  | PeerData peer_id
  | MessageData peer_id json
  | BinaryData peer_id payload

text \<open>
  A callback is code of an external collaborator. The model keeps its identity and
  whether it throws on a given argument; what else it does is outside the core. A
  callback is taken not to call back into the manager.
\<close>

datatype callback = Callback (cb_id: nat) (cb_throws: "event_data \<Rightarrow> bool")

subsection \<open>The browser's objects\<close>

text \<open>
  \<open>pc_peer\<close> is the \<^verbatim>\<open>peerId\<close> captured by the closures that \<^verbatim>\<open>createPeerConnection\<close>
  installs as the connection's handlers; \<open>ch_peer\<close> is the one captured by the handlers
  that \<^verbatim>\<open>setupDataChannel\<close> installs (\<open>None\<close>: no handlers yet). \<open>candidates\<close> are the ICE
  candidates the connection has accepted, oldest first; \<open>sent\<close> are the strings handed to
  an open channel, oldest first. \<open>maxMessageSize\<close> is the longest message the transport of
  the channel takes and \<open>room\<close> is how much its send buffer can still queue.
\<close>

record peer_connection =
  pc_peer :: peer_id
  connectionState :: connection_state
  iceConnectionState :: string
  localDescription :: "description option"
  remoteDescription :: "description option"
  senders :: "track list"
  candidates :: "candidate list"

record data_channel =
  ch_peer :: "peer_id option"
  ch_conn :: ref
  ch_label :: string
  readyState :: ready_state
  sent :: "string list"
  maxMessageSize :: nat
  room :: nat

subsection \<open>The manager\<close>

text \<open>
  The first four fields are the fields of \<^verbatim>\<open>RTCManager\<close>. \<open>conns\<close> and \<open>chans\<close> are the
  store. \<open>emitted\<close>, \<open>invoked\<close> and \<open>console\<close> record what the manager did to its
  surroundings: every call of \<^verbatim>\<open>emit\<close>, every callback invocation (callback id and
  argument) and every \<^verbatim>\<open>console.error\<close>, each oldest first.
\<close>

record rtc_manager =
  peerConnections :: "(peer_id \<times> ref) list"
  dataChannels :: "(peer_id \<times> ref) list"
  localStream :: "track list option"
  callbacks :: "(string \<times> callback list) list"
  conns :: "peer_connection list"
  chans :: "data_channel list"
  emitted :: "(string \<times> event_data) list"
  invoked :: "(nat \<times> event_data) list"
  console :: "(string \<times> exn) list"

definition constructor :: rtc_manager where
  "constructor =
     \<lparr>peerConnections = [], dataChannels = [], localStream = None, callbacks = [],
      conns = [], chans = [], emitted = [], invoked = [], console = []\<rparr>"

type_synonym 'a op = "rtc_manager \<Rightarrow> 'a completion \<times> rtc_manager"

text \<open>Sequencing: a throw ends the rest of the function body, the state so far stays.\<close>

definition bind :: "'a op \<Rightarrow> ('a \<Rightarrow> 'b op) \<Rightarrow> 'b op" where
  "bind m f s = (case m s of (Throw e, s') \<Rightarrow> (Throw e, s') | (Return v, s') \<Rightarrow> f v s')"

subsection \<open>Event dispatcher: \<^verbatim>\<open>on\<close> and \<^verbatim>\<open>emit\<close>\<close>

text \<open>\<^verbatim>\<open>this.callbacks.get(event) || []\<close>\<close>

definition registered :: "string \<Rightarrow> rtc_manager \<Rightarrow> callback list" where
  "registered event s = (case map_of (callbacks s) event of None \<Rightarrow> [] | Some cbs \<Rightarrow> cbs)"

text \<open>
  \<^verbatim>\<open>on(event, callback)\<close>: create the empty list when the event has none, then push.
\<close>

definition on :: "string \<Rightarrow> callback \<Rightarrow> rtc_manager \<Rightarrow> rtc_manager" where
  "on event cb s =
     (let cs = (if map_of (callbacks s) event = None
                then AList.update event [] (callbacks s) else callbacks s)
      in s\<lparr>callbacks :=
             AList.update event ((case map_of cs event of None \<Rightarrow> [] | Some cbs \<Rightarrow> cbs) @ [cb]) cs\<rparr>)"

text \<open>
  \<^verbatim>\<open>callbacks.forEach(cb => cb(data))\<close>: there is no \<^verbatim>\<open>try\<close> around the call, so the
  first callback that throws ends the loop and the exception leaves \<^verbatim>\<open>emit\<close>.
\<close>

fun forEach :: "callback list \<Rightarrow> event_data \<Rightarrow> unit op" where
  "forEach [] d s = (Return (), s)"
| "forEach (cb # cbs) d s =
     (let s' = s\<lparr>invoked := invoked s @ [(cb_id cb, d)]\<rparr>
      in if cb_throws cb d then (Throw (CallbackError (cb_id cb)), s')
         else forEach cbs d s')"

definition emit :: "string \<Rightarrow> event_data \<Rightarrow> unit op" where
  "emit event d s = forEach (registered event s) d (s\<lparr>emitted := emitted s @ [(event, d)]\<rparr>)"

subsection \<open>The browser's operations on a connection and on a channel\<close>

text \<open>
  These are not code of the repository: they are the operations of \<^verbatim>\<open>RTCPeerConnection\<close>
  and \<^verbatim>\<open>RTCDataChannel\<close> that the manager calls, as far as the manager's behaviour depends
  on them. Every operation on a closed connection fails with \<^verbatim>\<open>InvalidStateError\<close>;
  \<^verbatim>\<open>addIceCandidate\<close> and \<^verbatim>\<open>createAnswer\<close> fail with it while the connection has no
  remote description. \<^verbatim>\<open>send\<close> fails with it unless the channel is open, and on an open
  channel it fails with \<^verbatim>\<open>TypeError\<close> when the data is longer than the transport's maximum
  message size and with \<^verbatim>\<open>OperationError\<close> when the send buffer cannot queue it. The text
  of a session description is opaque, the one the browser generates is a fixed token.
  Closing a connection closes the channels created on it; \<^verbatim>\<open>close\<close> never throws.
  Whether a description is acceptable in the signaling state of the connection is not
  modelled.
\<close>

definition is_closed :: "ref \<Rightarrow> rtc_manager \<Rightarrow> bool" where
  "is_closed pc s = (connectionState (conns s ! pc) = CClosed)"

definition upd_conn :: "ref \<Rightarrow> (peer_connection \<Rightarrow> peer_connection) \<Rightarrow> rtc_manager \<Rightarrow> rtc_manager" where
  "upd_conn pc f s = s\<lparr>conns := (conns s)[pc := f (conns s ! pc)]\<rparr>"

definition upd_chan :: "ref \<Rightarrow> (data_channel \<Rightarrow> data_channel) \<Rightarrow> rtc_manager \<Rightarrow> rtc_manager" where
  "upd_chan c f s = s\<lparr>chans := (chans s)[c := f (chans s ! c)]\<rparr>"

definition RTCPeerConnection :: "peer_connection" where
  "RTCPeerConnection =
     \<lparr>pc_peer = [], connectionState = CNew, iceConnectionState = ''new'',
      localDescription = None, remoteDescription = None, senders = [], candidates = []\<rparr>"

definition pc_createOffer :: "ref \<Rightarrow> description op" where
  "pc_createOffer pc s =
     (if is_closed pc s then (Throw InvalidStateError, s)
      else (Return (Description SdpOffer ''sdp''), s))"

definition pc_createAnswer :: "ref \<Rightarrow> description op" where
  "pc_createAnswer pc s =
     (if is_closed pc s \<or> remoteDescription (conns s ! pc) = None
      then (Throw InvalidStateError, s)
      else (Return (Description SdpAnswer ''sdp''), s))"

definition pc_setLocalDescription :: "ref \<Rightarrow> description \<Rightarrow> unit op" where
  "pc_setLocalDescription pc d s =
     (if is_closed pc s then (Throw InvalidStateError, s)
      else (Return (), upd_conn pc (\<lambda>c. c\<lparr>localDescription := Some d\<rparr>) s))"

definition pc_setRemoteDescription :: "ref \<Rightarrow> description \<Rightarrow> unit op" where
  "pc_setRemoteDescription pc d s =
     (if is_closed pc s then (Throw InvalidStateError, s)
      else (Return (), upd_conn pc (\<lambda>c. c\<lparr>remoteDescription := Some d\<rparr>) s))"

text \<open>\<^verbatim>\<open>new RTCIceCandidate(init)\<close> throws when both \<^verbatim>\<open>sdpMid\<close> and \<^verbatim>\<open>sdpMLineIndex\<close> are null.\<close>

fun RTCIceCandidate :: "candidate \<Rightarrow> candidate op" where
  "RTCIceCandidate (Candidate c None None) s = (Throw TypeError, s)"
| "RTCIceCandidate ic s = (Return ic, s)"

definition pc_addIceCandidate :: "ref \<Rightarrow> candidate \<Rightarrow> unit op" where
  "pc_addIceCandidate pc ic s =
     (if is_closed pc s \<or> remoteDescription (conns s ! pc) = None
      then (Throw InvalidStateError, s)
      else (Return (), upd_conn pc (\<lambda>c. c\<lparr>candidates := candidates c @ [ic]\<rparr>) s))"

text \<open>A new channel of a connection: no handlers, connecting, its limits not yet known.\<close>

definition RTCDataChannel :: "ref \<Rightarrow> string \<Rightarrow> data_channel" where
  "RTCDataChannel pc label =
     \<lparr>ch_peer = None, ch_conn = pc, ch_label = label, readyState = ChConnecting, sent = [],
      maxMessageSize = 0, room = 0\<rparr>"

definition pc_createDataChannel :: "ref \<Rightarrow> string \<Rightarrow> ref op" where
  "pc_createDataChannel pc label s =
     (if is_closed pc s then (Throw InvalidStateError, s)
      else (Return (length (chans s)), s\<lparr>chans := chans s @ [RTCDataChannel pc label]\<rparr>))"

definition pc_close :: "ref \<Rightarrow> rtc_manager \<Rightarrow> rtc_manager" where
  "pc_close pc s =
     (upd_conn pc (\<lambda>c. c\<lparr>connectionState := CClosed\<rparr>) s)
       \<lparr>chans := map (\<lambda>ch. if ch_conn ch = pc then ch\<lparr>readyState := ChClosed\<rparr> else ch) (chans s)\<rparr>"

text \<open>
  \<^verbatim>\<open>channel.send(data)\<close> on the channel object: the error it throws, or the channel with
  the data queued. \<open>on_channel\<close> runs such a method on the channel at a reference of the
  store; a throw leaves the store as it is.
\<close>

definition deliver :: "string \<Rightarrow> data_channel \<Rightarrow> data_channel" where
  "deliver data ch = ch\<lparr>sent := sent ch @ [data], room := room ch - length data\<rparr>"

definition channel_send :: "data_channel \<Rightarrow> string \<Rightarrow> exn + data_channel" where
  "channel_send ch data =
     (if readyState ch \<noteq> ChOpen then Inl InvalidStateError
      else if maxMessageSize ch < length data then Inl TypeError
      else if room ch < length data then Inl OperationError
      else Inr (deliver data ch))"

definition on_channel :: "ref \<Rightarrow> (data_channel \<Rightarrow> exn + data_channel) \<Rightarrow> unit op" where
  "on_channel c method s =
     (case method (chans s ! c) of
        Inl e \<Rightarrow> (Throw e, s)
      | Inr ch \<Rightarrow> (Return (), s\<lparr>chans := (chans s)[c := ch]\<rparr>))"

definition ch_close :: "ref \<Rightarrow> rtc_manager \<Rightarrow> rtc_manager" where
  "ch_close c s =
     (if readyState (chans s ! c) = ChClosing \<or> readyState (chans s ! c) = ChClosed then s
      else upd_chan c (\<lambda>ch. ch\<lparr>readyState := ChClosing\<rparr>) s)"

subsection \<open>Connections and channels: \<^verbatim>\<open>createPeerConnection\<close> to \<^verbatim>\<open>createDataChannel\<close>\<close>

definition setLocalStream :: "track list option \<Rightarrow> rtc_manager \<Rightarrow> rtc_manager" where
  "setLocalStream stream s = s\<lparr>localStream := stream\<rparr>"

text \<open>
  \<^verbatim>\<open>createPeerConnection(peerId)\<close> makes a new connection, adds the local tracks,
  installs the handlers and does \<^verbatim>\<open>this.peerConnections.set(peerId, pc)\<close>, whether or not
  the map has the key.
\<close>

definition createPeerConnection :: "peer_id \<Rightarrow> rtc_manager \<Rightarrow> ref \<times> rtc_manager" where
  "createPeerConnection peerId s =
     (let pc = length (conns s);
          tracks = (case localStream s of None \<Rightarrow> [] | Some stream \<Rightarrow> stream);
          s1 = s\<lparr>conns := conns s @ [RTCPeerConnection\<lparr>pc_peer := peerId, senders := tracks\<rparr>]\<rparr>
      in (pc, s1\<lparr>peerConnections := AList.update peerId pc (peerConnections s1)\<rparr>))"

definition setupDataChannel :: "peer_id \<Rightarrow> ref \<Rightarrow> rtc_manager \<Rightarrow> rtc_manager" where
  "setupDataChannel peerId channel s =
     (let s1 = upd_chan channel (\<lambda>ch. ch\<lparr>ch_peer := Some peerId\<rparr>) s
      in s1\<lparr>dataChannels := AList.update peerId channel (dataChannels s1)\<rparr>)"

text \<open>\<^verbatim>\<open>createDataChannel(peerId, label = 'nextmeet')\<close>; \<open>None\<close> is \<^verbatim>\<open>null\<close>.\<close>

definition createDataChannel :: "peer_id \<Rightarrow> string \<Rightarrow> ref option op" where
  "createDataChannel peerId label s =
     (case map_of (peerConnections s) peerId of
        None \<Rightarrow> (Return None, s)
      | Some pc \<Rightarrow>
          bind (pc_createDataChannel pc label)
            (\<lambda>channel s1. (Return (Some channel), setupDataChannel peerId channel s1)) s)"

subsection \<open>Negotiation: \<^verbatim>\<open>createOffer\<close>, \<^verbatim>\<open>handleOffer\<close>, \<^verbatim>\<open>handleAnswer\<close>, \<^verbatim>\<open>addIceCandidate\<close>\<close>

text \<open>
  In \<^verbatim>\<open>createOffer\<close> the variable \<^verbatim>\<open>pc\<close> is a \<^verbatim>\<open>const\<close>: when the map has no connection
  for the peer, \<^verbatim>\<open>createPeerConnection(peerId)\<close> is called and its result dropped, and
  \<^verbatim>\<open>pc.createOffer\<close> is then a property access on \<^verbatim>\<open>undefined\<close>.
\<close>

definition createOffer :: "peer_id \<Rightarrow> description op" where
  "createOffer peerId s =
     (case map_of (peerConnections s) peerId of
        None \<Rightarrow> (Throw TypeError, snd (createPeerConnection peerId s))
      | Some pc \<Rightarrow>
          bind (pc_createOffer pc)
            (\<lambda>offer. bind (pc_setLocalDescription pc offer) (\<lambda>_ s2. (Return offer, s2))) s)"

definition handleOffer :: "peer_id \<Rightarrow> description \<Rightarrow> description op" where
  "handleOffer peerId offer s =
     (let (pc, s0) = (case map_of (peerConnections s) peerId of
                        None \<Rightarrow> createPeerConnection peerId s
                      | Some pc \<Rightarrow> (pc, s))
      in bind (pc_setRemoteDescription pc offer)
           (\<lambda>_. bind (pc_createAnswer pc)
             (\<lambda>answer. bind (pc_setLocalDescription pc answer)
               (\<lambda>_ s3. (Return answer, s3)))) s0)"

definition handleAnswer :: "peer_id \<Rightarrow> description \<Rightarrow> unit op" where
  "handleAnswer peerId answer s =
     (case map_of (peerConnections s) peerId of
        None \<Rightarrow> (Return (), s)
      | Some pc \<Rightarrow> pc_setRemoteDescription pc answer s)"

text \<open>
  \<^verbatim>\<open>addIceCandidate\<close>: the candidate goes straight to the connection; a failure is
  caught and written to the console.
\<close>

definition addIceCandidate :: "peer_id \<Rightarrow> candidate \<Rightarrow> unit op" where
  "addIceCandidate peerId c s =
     (case map_of (peerConnections s) peerId of
        None \<Rightarrow> (Return (), s)
      | Some pc \<Rightarrow>
          (case bind (RTCIceCandidate c) (pc_addIceCandidate pc) s of
             (Return _, s1) \<Rightarrow> (Return (), s1)
           | (Throw error, s1) \<Rightarrow>
               (Return (), s1\<lparr>console := console s1 @ [(''Failed to add ICE candidate:'', error)]\<rparr>)))"

subsection \<open>Messages: \<^verbatim>\<open>sendMessage\<close> and \<^verbatim>\<open>broadcast\<close>\<close>

text \<open>
  \<^verbatim>\<open>JSON.stringify\<close> is a function of the language: the text it gives for a tree is taken
  as a parameter, and on a value it cannot serialise it throws. \<open>send_json\<close> is the
  expression \<^verbatim>\<open>channel.send(JSON.stringify(message))\<close> of both methods on the channel
  object: the argument is evaluated first. Neither method has a \<^verbatim>\<open>try\<close> around it, so what
  it throws leaves the method, in \<^verbatim>\<open>broadcast\<close> from inside the loop.
\<close>

fun JSON_stringify :: "(json \<Rightarrow> string) \<Rightarrow> js_value \<Rightarrow> exn + string" where
  "JSON_stringify stringify (Tree j) = Inr (stringify j)"
| "JSON_stringify stringify Unserialisable = Inl TypeError"

definition send_json :: "(json \<Rightarrow> string) \<Rightarrow> js_value \<Rightarrow> data_channel \<Rightarrow> exn + data_channel" where
  "send_json stringify message ch =
     (case JSON_stringify stringify message of
        Inl e \<Rightarrow> Inl e
      | Inr data \<Rightarrow> channel_send ch data)"

definition sendMessage :: "(json \<Rightarrow> string) \<Rightarrow> peer_id \<Rightarrow> js_value \<Rightarrow> bool op" where
  "sendMessage stringify peerId message s =
     (case map_of (dataChannels s) peerId of
        None \<Rightarrow> (Return False, s)
      | Some channel \<Rightarrow>
          if readyState (chans s ! channel) = ChOpen
          then bind (on_channel channel (send_json stringify message))
                 (\<lambda>_ s1. (Return True, s1)) s
          else (Return False, s))"

fun broadcast_loop :: "(json \<Rightarrow> string) \<Rightarrow> (peer_id \<times> ref) list \<Rightarrow> js_value \<Rightarrow> unit op" where
  "broadcast_loop stringify [] message s = (Return (), s)"
| "broadcast_loop stringify ((peerId, channel) # rest) message s =
     (if readyState (chans s ! channel) = ChOpen
      then bind (on_channel channel (send_json stringify message))
             (\<lambda>_. broadcast_loop stringify rest message) s
      else broadcast_loop stringify rest message s)"

definition broadcast :: "(json \<Rightarrow> string) \<Rightarrow> js_value \<Rightarrow> unit op" where
  "broadcast stringify message s = broadcast_loop stringify (dataChannels s) message s"

subsection \<open>Cleanup: \<^verbatim>\<open>handleDisconnection\<close>, \<^verbatim>\<open>removePeer\<close>, \<^verbatim>\<open>closeAll\<close>\<close>

definition removePeer :: "peer_id \<Rightarrow> rtc_manager \<Rightarrow> rtc_manager" where
  "removePeer peerId s =
     (let s1 = (case map_of (peerConnections s) peerId of
                  None \<Rightarrow> s
                | Some pc \<Rightarrow>
                    (let s' = pc_close pc s
                     in s'\<lparr>peerConnections := AList.delete peerId (peerConnections s')\<rparr>))
      in (case map_of (dataChannels s1) peerId of
            None \<Rightarrow> s1
          | Some channel \<Rightarrow>
              (let s' = ch_close channel s1
               in s'\<lparr>dataChannels := AList.delete peerId (dataChannels s')\<rparr>)))"

definition handleDisconnection :: "peer_id \<Rightarrow> unit op" where
  "handleDisconnection peerId s =
     bind (emit ''peerDisconnected'' (PeerData peerId))
       (\<lambda>_ s1. (Return (), removePeer peerId s1)) s"

text \<open>\<^verbatim>\<open>closeAll\<close> closes the connections of the map and clears both maps.\<close>

definition closeAll :: "rtc_manager \<Rightarrow> rtc_manager" where
  "closeAll s =
     (let s1 = fold (\<lambda>(peerId, pc). pc_close pc) (peerConnections s) s
      in s1\<lparr>peerConnections := [], dataChannels := []\<rparr>)"

subsection \<open>The handlers of a connection and of a channel\<close>

text \<open>
  Each function is the body of a handler installed by \<^verbatim>\<open>createPeerConnection\<close> or
  \<^verbatim>\<open>setupDataChannel\<close>, for the object at the given reference.
\<close>

fun onicecandidate :: "ref \<Rightarrow> candidate option \<Rightarrow> unit op" where
  "onicecandidate pc None s = (Return (), s)"
| "onicecandidate pc (Some c) s = emit ''iceCandidate'' (IceCandidateData (pc_peer (conns s ! pc)) c) s"

definition onconnectionstatechange :: "ref \<Rightarrow> unit op" where
  "onconnectionstatechange pc s =
     (let peerId = pc_peer (conns s ! pc)
      in bind (emit ''connectionStateChange'' (StateData peerId (connectionState (conns s ! pc))))
           (\<lambda>_ s1. if connectionState (conns s1 ! pc) = CFailed
                       \<or> connectionState (conns s1 ! pc) = CDisconnected
                    then handleDisconnection peerId s1 else (Return (), s1)) s)"

definition oniceconnectionstatechange :: "ref \<Rightarrow> unit op" where
  "oniceconnectionstatechange pc s =
     emit ''iceConnectionStateChange''
       (IceStateData (pc_peer (conns s ! pc)) (iceConnectionState (conns s ! pc))) s"

definition ontrack :: "ref \<Rightarrow> track list list \<Rightarrow> track \<Rightarrow> unit op" where
  "ontrack pc streams track s =
     emit ''remoteTrack'' (RemoteTrackData (pc_peer (conns s ! pc)) streams track) s"

definition ondatachannel :: "ref \<Rightarrow> ref \<Rightarrow> rtc_manager \<Rightarrow> rtc_manager" where
  "ondatachannel pc channel s = setupDataChannel (pc_peer (conns s ! pc)) channel s"

definition onopen :: "ref \<Rightarrow> unit op" where
  "onopen channel s =
     (case ch_peer (chans s ! channel) of
        None \<Rightarrow> (Return (), s)
      | Some peerId \<Rightarrow> emit ''dataChannelOpen'' (PeerData peerId) s)"

definition onclose :: "ref \<Rightarrow> unit op" where
  "onclose channel s =
     (case ch_peer (chans s ! channel) of
        None \<Rightarrow> (Return (), s)
      | Some peerId \<Rightarrow> emit ''dataChannelClose'' (PeerData peerId) s)"

text \<open>
  \<^verbatim>\<open>channel.onmessage\<close>: \<^verbatim>\<open>JSON.parse\<close> is taken as a parameter, \<open>None\<close> when it throws.
  The \<^verbatim>\<open>try\<close> block holds the \<^verbatim>\<open>emit\<close> of the parsed message as well, so the \<^verbatim>\<open>catch\<close>
  also takes what a callback of \<^verbatim>\<open>dataChannelMessage\<close> throws.
\<close>

definition onmessage :: "(payload \<Rightarrow> json option) \<Rightarrow> ref \<Rightarrow> payload \<Rightarrow> unit op" where
  "onmessage parse channel event_data s =
     (case ch_peer (chans s ! channel) of
        None \<Rightarrow> (Return (), s)
      | Some peerId \<Rightarrow>
          (case parse event_data of
             None \<Rightarrow> emit ''dataChannelBinary'' (BinaryData peerId event_data) s
           | Some data \<Rightarrow>
               (case emit ''dataChannelMessage'' (MessageData peerId data) s of
                  (Return _, s1) \<Rightarrow> (Return (), s1)
                | (Throw e, s1) \<Rightarrow> emit ''dataChannelBinary'' (BinaryData peerId event_data) s1)))"

subsection \<open>What the transport does\<close>

text \<open>
  The browser changes an object and then runs the handler: a connection reports a new
  connection state, a channel opens (its limits are known from then on) or closes, a
  channel is announced by the remote side (a new channel object on that connection), a
  message arrives. The send buffer of a channel drains or fills without any handler of
  the manager.
\<close>

definition transport_connectionstate :: "ref \<Rightarrow> connection_state \<Rightarrow> unit op" where
  "transport_connectionstate pc st s =
     onconnectionstatechange pc (upd_conn pc (\<lambda>c. c\<lparr>connectionState := st\<rparr>) s)"

definition transport_iceconnectionstate :: "ref \<Rightarrow> string \<Rightarrow> unit op" where
  "transport_iceconnectionstate pc st s =
     oniceconnectionstatechange pc (upd_conn pc (\<lambda>c. c\<lparr>iceConnectionState := st\<rparr>) s)"

definition transport_datachannel :: "ref \<Rightarrow> string \<Rightarrow> rtc_manager \<Rightarrow> rtc_manager" where
  "transport_datachannel pc label s =
     ondatachannel pc (length (chans s)) (s\<lparr>chans := chans s @ [RTCDataChannel pc label]\<rparr>)"

definition transport_open :: "ref \<Rightarrow> nat \<Rightarrow> nat \<Rightarrow> unit op" where
  "transport_open channel limit buffer s =
     onopen channel
       (upd_chan channel
          (\<lambda>ch. ch\<lparr>readyState := ChOpen, maxMessageSize := limit, room := buffer\<rparr>) s)"

definition transport_buffer :: "ref \<Rightarrow> nat \<Rightarrow> rtc_manager \<Rightarrow> rtc_manager" where
  "transport_buffer channel buffer s = upd_chan channel (\<lambda>ch. ch\<lparr>room := buffer\<rparr>) s"

definition transport_close :: "ref \<Rightarrow> unit op" where
  "transport_close channel s = onclose channel (upd_chan channel (\<lambda>ch. ch\<lparr>readyState := ChClosed\<rparr>) s)"

subsection \<open>Well-formed states and reachable states\<close>

text \<open>
  A state is well formed when the two maps have no duplicate keys, no channel is
  registered twice, every registered reference denotes an object of the store whose
  handlers carry the peer id it is registered under, and every channel belongs to a
  connection of the store whose handlers carry the same peer id as the channel's.
  In a well-formed state no method reads the store at a reference that is not in it;
  every reachable state is well formed.
\<close>

definition wf :: "rtc_manager \<Rightarrow> bool" where
  "wf s =
     (distinct (map fst (peerConnections s)) \<and>
      distinct (map fst (dataChannels s)) \<and>
      distinct (map snd (dataChannels s)) \<and>
      list_all (\<lambda>(p, pc). pc < length (conns s) \<and> pc_peer (conns s ! pc) = p) (peerConnections s) \<and>
      list_all (\<lambda>(p, c). c < length (chans s) \<and> ch_peer (chans s ! c) = Some p) (dataChannels s) \<and>
      list_all (\<lambda>ch. ch_conn ch < length (conns s) \<and>
                  (case ch_peer ch of None \<Rightarrow> True
                   | Some p \<Rightarrow> pc_peer (conns s ! ch_conn ch) = p)) (chans s))"

text \<open>
  The states the manager can be in: from the constructor, by the methods of the class
  and by the events of the transport on objects that exist.
\<close>

inductive reachable :: "rtc_manager \<Rightarrow> bool" where
  r_constructor: "reachable constructor"
| r_setLocalStream: "reachable s \<Longrightarrow> reachable (setLocalStream stream s)"
| r_on: "reachable s \<Longrightarrow> reachable (on event cb s)"
| r_createPeerConnection: "reachable s \<Longrightarrow> reachable (snd (createPeerConnection p s))"
| r_createDataChannel: "reachable s \<Longrightarrow> reachable (snd (createDataChannel p label s))"
| r_createOffer: "reachable s \<Longrightarrow> reachable (snd (createOffer p s))"
| r_handleOffer: "reachable s \<Longrightarrow> reachable (snd (handleOffer p d s))"
| r_handleAnswer: "reachable s \<Longrightarrow> reachable (snd (handleAnswer p d s))"
| r_addIceCandidate: "reachable s \<Longrightarrow> reachable (snd (addIceCandidate p c s))"
| r_sendMessage: "reachable s \<Longrightarrow> reachable (snd (sendMessage stringify p m s))"
| r_broadcast: "reachable s \<Longrightarrow> reachable (snd (broadcast stringify m s))"
| r_removePeer: "reachable s \<Longrightarrow> reachable (removePeer p s)"
| r_closeAll: "reachable s \<Longrightarrow> reachable (closeAll s)"
| r_icecandidate:
    "reachable s \<Longrightarrow> pc < length (conns s) \<Longrightarrow> reachable (snd (onicecandidate pc co s))"
| r_connectionstate:
    "reachable s \<Longrightarrow> pc < length (conns s) \<Longrightarrow>
     reachable (snd (transport_connectionstate pc st s))"
| r_iceconnectionstate:
    "reachable s \<Longrightarrow> pc < length (conns s) \<Longrightarrow>
     reachable (snd (transport_iceconnectionstate pc ist s))"
| r_track:
    "reachable s \<Longrightarrow> pc < length (conns s) \<Longrightarrow> reachable (snd (ontrack pc streams track s))"
| r_datachannel:
    "reachable s \<Longrightarrow> pc < length (conns s) \<Longrightarrow> reachable (transport_datachannel pc label s)"
| r_open:
    "reachable s \<Longrightarrow> c < length (chans s) \<Longrightarrow> reachable (snd (transport_open c limit buffer s))"
| r_buffer: "reachable s \<Longrightarrow> c < length (chans s) \<Longrightarrow> reachable (transport_buffer c buffer s)"
| r_close: "reachable s \<Longrightarrow> c < length (chans s) \<Longrightarrow> reachable (snd (transport_close c s))"
| r_message:
    "reachable s \<Longrightarrow> c < length (chans s) \<Longrightarrow> reachable (snd (onmessage parse c data s))"

subsection \<open>Callbacks and states used as concrete inputs\<close>

definition never_throws :: "event_data \<Rightarrow> bool" where
  "never_throws d = False"

definition always_throws :: "event_data \<Rightarrow> bool" where
  "always_throws d = True"

definition two_listeners :: rtc_manager where
  "two_listeners =
     on ''peerDisconnected'' (Callback 2 never_throws)
       (on ''peerDisconnected'' (Callback 1 never_throws) constructor)"

definition failing_listener :: rtc_manager where
  "failing_listener =
     on ''peerDisconnected'' (Callback 2 never_throws)
       (on ''peerDisconnected'' (Callback 1 always_throws) constructor)"

definition with_bob :: rtc_manager where
  "with_bob = snd (createPeerConnection ''bob'' constructor)"

text \<open>
  Candidates and descriptions as they arrive over the signaling bus, and states reached
  by calls of the manager from the constructor: \<open>offering\<close> has sent an offer to alice
  and has no answer yet; \<open>answered\<close> received two candidates from alice and then her
  answer; \<open>alice_connected\<close> has a connection to alice that the transport reports as
  connected; \<open>two_peers\<close> has a connection and a channel for alice and for bob, with
  alice's channel open and bob's still connecting; \<open>meeting\<close>, \<open>meeting_failing\<close> and
  \<open>meeting_state_failing\<close> are \<open>two_peers\<close> with one listener; in \<open>congested\<close> both
  channels are open and the send buffer of alice's channel is full; \<open>replaced\<close> created
  a connection and an open channel for alice and then a second connection for her.
\<close>

definition cand1 :: candidate where "cand1 = Candidate ''candidate:1'' (Some ''0'') (Some 0)"
definition cand2 :: candidate where "cand2 = Candidate ''candidate:2'' (Some ''0'') (Some 0)"
definition remote_answer :: description where "remote_answer = Description SdpAnswer ''remote''"
definition remote_offer :: description where "remote_offer = Description SdpOffer ''remote''"

definition offering :: rtc_manager where
  "offering = snd (createOffer ''alice'' (snd (createPeerConnection ''alice'' constructor)))"

definition answered :: rtc_manager where
  "answered =
     snd (handleAnswer ''alice'' remote_answer
       (snd (addIceCandidate ''alice'' cand2 (snd (addIceCandidate ''alice'' cand1 offering)))))"

definition alice_connected :: rtc_manager where
  "alice_connected =
     snd (transport_connectionstate 0 CConnected (snd (createPeerConnection ''alice'' constructor)))"

definition two_peers :: rtc_manager where
  "two_peers =
     snd (transport_open 0 1024 4096
       (snd (createDataChannel ''bob'' ''nextmeet''
         (snd (createPeerConnection ''bob''
           (snd (createDataChannel ''alice'' ''nextmeet''
             (snd (createPeerConnection ''alice'' constructor)))))))))"



definition congested :: rtc_manager where
  "congested = transport_buffer 0 0 (snd (transport_open 1 1024 4096 two_peers))"


definition replaced :: rtc_manager where
  "replaced =
     snd (createPeerConnection ''alice''
       (snd (transport_open 0 1024 4096
         (snd (createDataChannel ''alice'' ''nextmeet''
           (snd (createPeerConnection ''alice'' constructor)))))))"

text \<open>
  A listener like the \<^verbatim>\<open>dataChannelMessage\<close> handler of the application, which reads
  \<^verbatim>\<open>data.type\<close>: on the parsed value \<^verbatim>\<open>null\<close> that is a \<^verbatim>\<open>TypeError\<close>. \<open>parse_literal\<close> and
  \<open>stringify_literal\<close> stand for \<^verbatim>\<open>JSON.parse\<close> and \<^verbatim>\<open>JSON.stringify\<close> at the concrete
  inputs below: they agree with them on the literals \<^verbatim>\<open>null\<close>, \<^verbatim>\<open>true\<close> and \<^verbatim>\<open>false\<close>.
\<close>

fun reads_type :: "event_data \<Rightarrow> bool" where
  "reads_type (MessageData p JNull) = True"
| "reads_type d = False"

definition parse_literal :: "payload \<Rightarrow> json option" where
  "parse_literal x =
     (if x = ''null'' then Some JNull
      else if x = ''true'' then Some (JBool True)
      else if x = ''false'' then Some (JBool False) else None)"

definition listening :: rtc_manager where
  "listening =
     on ''dataChannelBinary'' (Callback 2 never_throws)
       (on ''dataChannelMessage'' (Callback 1 reads_type) two_peers)"

fun stringify_literal :: "json \<Rightarrow> string" where
  "stringify_literal (JBool True) = ''true''"
| "stringify_literal (JBool False) = ''false''"
| "stringify_literal m = ''null''"

section \<open>The event dispatcher\<close>

lemma registered_on:
  "registered e (on event cb s) = (if e = event then registered event s @ [cb] else registered e s)"
  by (auto simp: registered_def on_def Let_def update_conv' split: option.splits)

lemma registered_emitted [simp]: "registered e (s\<lparr>emitted := x\<rparr>) = registered e s"
  by (simp add: registered_def)

lemma forEach_no_throw:
  "\<forall>cb\<in>set cbs. \<not> cb_throws cb d \<Longrightarrow>
   forEach cbs d s = (Return (), s\<lparr>invoked := invoked s @ map (\<lambda>cb. (cb_id cb, d)) cbs\<rparr>)"
  by (induction cbs arbitrary: s) (simp_all add: Let_def)

lemma forEach_throw:
  "\<forall>c\<in>set pre. \<not> cb_throws c d \<Longrightarrow> cb_throws cb d \<Longrightarrow>
   forEach (pre @ cb # post) d s =
     (Throw (CallbackError (cb_id cb)),
      s\<lparr>invoked := invoked s @ map (\<lambda>c. (cb_id c, d)) (pre @ [cb])\<rparr>)"
  by (induction pre arbitrary: s) (simp_all add: Let_def)

lemma emit_no_throw:
  "\<forall>c\<in>set (registered event s). \<not> cb_throws c d \<Longrightarrow>
   emit event d s =
     (Return (), s\<lparr>emitted := emitted s @ [(event, d)],
                    invoked := invoked s @ map (\<lambda>c. (cb_id c, d)) (registered event s)\<rparr>)"
  unfolding emit_def by (subst forEach_no_throw) simp_all

lemma emit_throw:
  "registered event s = pre @ c # post \<Longrightarrow> \<forall>c\<in>set pre. \<not> cb_throws c d \<Longrightarrow>
   cb_throws c d \<Longrightarrow>
   emit event d s =
     (Throw (CallbackError (cb_id c)),
      s\<lparr>emitted := emitted s @ [(event, d)],
        invoked := invoked s @ map (\<lambda>c. (cb_id c, d)) (pre @ [c])\<rparr>)"
  unfolding emit_def by (simp add: forEach_throw)

lemma forEach_returns:
  "fst (forEach cbs d s) = Return () \<longleftrightarrow> (\<forall>c\<in>set cbs. \<not> cb_throws c d)"
  by (induction cbs arbitrary: s) (auto simp: Let_def)

lemma emit_returns:
  "fst (emit event d s) = Return () \<longleftrightarrow> (\<forall>c\<in>set (registered event s). \<not> cb_throws c d)"
  by (simp add: emit_def forEach_returns)

text \<open>
  C2, as stated, fails: with a first listener that throws and a second one registered
  after it for the same event, \<^verbatim>\<open>emit\<close> runs the first listener only and ends with its
  exception; the second listener is never invoked.
\<close>

theorem emit_isolation_counterexample:
  "registered ''peerDisconnected'' failing_listener
     = [Callback 1 always_throws, Callback 2 never_throws]
   \<and> fst (emit ''peerDisconnected'' (PeerData ''alice'') failing_listener)
     = Throw (CallbackError 1)
   \<and> invoked (snd (emit ''peerDisconnected'' (PeerData ''alice'') failing_listener))
     = [(1, PeerData ''alice'')]"
  by (simp add: failing_listener_def on_def Let_def emit_def registered_def constructor_def
      always_throws_def never_throws_def)

text \<open>
  C2, amended: \<^verbatim>\<open>on\<close> appends the callback to the list of its event; \<^verbatim>\<open>emit\<close> invokes the
  callbacks registered for the event in registration order, each with the emitted
  argument. When none of them throws all of them run and \<^verbatim>\<open>emit\<close> returns; otherwise the
  callbacks up to and including the first one that throws run, that exception leaves
  \<^verbatim>\<open>emit\<close>, and the callbacks registered after it are not invoked. Nothing else of
  the manager changes.
\<close>

theorem emit_runs_until_first_throw:
  "registered event (on event cb s) = registered event s @ [cb] \<and>
   ((\<forall>c\<in>set (registered event s). \<not> cb_throws c d) \<longrightarrow>
      emit event d s =
        (Return (), s\<lparr>emitted := emitted s @ [(event, d)],
                       invoked := invoked s @ map (\<lambda>c. (cb_id c, d)) (registered event s)\<rparr>)) \<and>
   (registered event s = pre @ c # post \<and> (\<forall>c\<in>set pre. \<not> cb_throws c d) \<and> cb_throws c d \<longrightarrow>
      emit event d s =
        (Throw (CallbackError (cb_id c)),
         s\<lparr>emitted := emitted s @ [(event, d)],
           invoked := invoked s @ map (\<lambda>c. (cb_id c, d)) (pre @ [c])\<rparr>))"
proof (intro conjI impI)
  show "registered event (on event cb s) = registered event s @ [cb]"
    by (simp add: registered_on)
next
  assume "\<forall>c\<in>set (registered event s). \<not> cb_throws c d"
  then show "emit event d s =
        (Return (), s\<lparr>emitted := emitted s @ [(event, d)],
                       invoked := invoked s @ map (\<lambda>c. (cb_id c, d)) (registered event s)\<rparr>)"
    by (simp add: emit_no_throw)
next
  assume "registered event s = pre @ c # post \<and> (\<forall>c\<in>set pre. \<not> cb_throws c d) \<and> cb_throws c d"
  then show "emit event d s =
        (Throw (CallbackError (cb_id c)),
         s\<lparr>emitted := emitted s @ [(event, d)],
           invoked := invoked s @ map (\<lambda>c. (cb_id c, d)) (pre @ [c])\<rparr>)"
    by (simp add: emit_throw)
qed

theorem emit_runs_until_first_throw_witness:
  "registered ''peerDisconnected'' two_listeners
       = [Callback 1 never_throws, Callback 2 never_throws]
   \<and> \<not> cb_throws (Callback 1 never_throws) (PeerData ''alice'')
   \<and> \<not> cb_throws (Callback 2 never_throws) (PeerData ''alice'')
   \<and> fst (emit ''peerDisconnected'' (PeerData ''alice'') two_listeners) = Return ()
   \<and> invoked (snd (emit ''peerDisconnected'' (PeerData ''alice'') two_listeners))
       = [(1, PeerData ''alice''), (2, PeerData ''alice'')]
   \<and> registered ''peerDisconnected'' failing_listener
       = [] @ Callback 1 always_throws # [Callback 2 never_throws]
   \<and> cb_throws (Callback 1 always_throws) (PeerData ''alice'')
   \<and> fst (emit ''peerDisconnected'' (PeerData ''alice'') failing_listener)
       = Throw (CallbackError 1)"
proof -
  have r2: "registered ''peerDisconnected'' two_listeners = [Callback 1 never_throws, Callback 2 never_throws]"
    by (simp add: two_listeners_def registered_on) (simp add: registered_def constructor_def)
  have rf: "registered ''peerDisconnected'' failing_listener
       = [] @ Callback 1 always_throws # [Callback 2 never_throws]"
    by (simp add: failing_listener_def registered_on) (simp add: registered_def constructor_def)
  have ok: "\<forall>c\<in>set (registered ''peerDisconnected'' two_listeners). \<not> cb_throws c (PeerData ''alice'')"
    by (simp add: r2 never_throws_def)
  have bad: "cb_throws (Callback 1 always_throws) (PeerData ''alice'')"
    by (simp add: always_throws_def)
  from emit_runs_until_first_throw
         [of "''peerDisconnected''" "Callback 1 never_throws" two_listeners "PeerData ''alice''"
             "[]" "Callback 1 always_throws" "[]"] ok
  have a: "emit ''peerDisconnected'' (PeerData ''alice'') two_listeners =
        (Return (), two_listeners\<lparr>emitted := emitted two_listeners @ [(''peerDisconnected'', PeerData ''alice'')],
           invoked := invoked two_listeners @
             map (\<lambda>c. (cb_id c, PeerData ''alice'')) (registered ''peerDisconnected'' two_listeners)\<rparr>)"
    by blast
  from emit_runs_until_first_throw
         [of "''peerDisconnected''" "Callback 1 never_throws" failing_listener "PeerData ''alice''"
             "[]" "Callback 1 always_throws" "[Callback 2 never_throws]"] rf bad
  have b: "fst (emit ''peerDisconnected'' (PeerData ''alice'') failing_listener) = Throw (CallbackError 1)"
    by simp
  have inv0: "invoked two_listeners = []"
    by (simp add: two_listeners_def on_def constructor_def Let_def)
  show ?thesis using rf bad b by (simp add: a r2 inv0 never_throws_def)
qed

section \<open>Every reachable state is well formed\<close>

lemma list_all_map_of:
  "distinct (map fst al) \<Longrightarrow>
   list_all (\<lambda>(p, r). P p r) al \<longleftrightarrow> (\<forall>p r. map_of al p = Some r \<longrightarrow> P p r)"
  by (auto simp: list_all_iff)

lemma wf_iff:
  "wf s \<longleftrightarrow>
     distinct (map fst (peerConnections s)) \<and>
     distinct (map fst (dataChannels s)) \<and>
     distinct (map snd (dataChannels s)) \<and>
     (\<forall>p pc. map_of (peerConnections s) p = Some pc \<longrightarrow>
        pc < length (conns s) \<and> pc_peer (conns s ! pc) = p) \<and>
     (\<forall>p c. map_of (dataChannels s) p = Some c \<longrightarrow>
        c < length (chans s) \<and> ch_peer (chans s ! c) = Some p) \<and>
     (\<forall>c<length (chans s). ch_conn (chans s ! c) < length (conns s) \<and>
        (\<forall>p. ch_peer (chans s ! c) = Some p \<longrightarrow> pc_peer (conns s ! ch_conn (chans s ! c)) = p))"
proof -
  have 3: "list_all (\<lambda>ch. ch_conn ch < length (conns s) \<and>
                  (case ch_peer ch of None \<Rightarrow> True
                   | Some p \<Rightarrow> pc_peer (conns s ! ch_conn ch) = p)) (chans s)
     \<longleftrightarrow> (\<forall>c<length (chans s). ch_conn (chans s ! c) < length (conns s) \<and>
        (\<forall>p. ch_peer (chans s ! c) = Some p \<longrightarrow> pc_peer (conns s ! ch_conn (chans s ! c)) = p))"
    unfolding list_all_length by (auto split: option.splits)
  show ?thesis
    unfolding wf_def 3 using list_all_map_of by (auto simp: list_all_map_of)
qed


lemma wf_observer [simp]:
  "wf (s\<lparr>emitted := a\<rparr>) = wf s" "wf (s\<lparr>invoked := b\<rparr>) = wf s"
  "wf (s\<lparr>console := c\<rparr>) = wf s" "wf (s\<lparr>callbacks := d\<rparr>) = wf s"
  "wf (s\<lparr>localStream := e\<rparr>) = wf s"
  by (simp_all add: wf_iff)

lemma forEach_invoked_only: "\<exists>x. snd (forEach cbs d s) = s\<lparr>invoked := x\<rparr>"
proof (induction cbs arbitrary: s)
  case Nil
  have "s = s\<lparr>invoked := invoked s\<rparr>" by simp
  then show ?case by (metis forEach.simps(1) snd_conv)
next
  case (Cons cb cbs)
  obtain x where "snd (forEach cbs d (s\<lparr>invoked := invoked s @ [(cb_id cb, d)]\<rparr>))
      = s\<lparr>invoked := invoked s @ [(cb_id cb, d)]\<rparr>\<lparr>invoked := x\<rparr>"
    using Cons by blast
  then show ?case by (auto simp: Let_def)
qed

lemma forEach_core: "snd (forEach cbs d s) = s\<lparr>invoked := invoked (snd (forEach cbs d s))\<rparr>"
proof -
  obtain x where x: "snd (forEach cbs d s) = s\<lparr>invoked := x\<rparr>"
    using forEach_invoked_only by blast
  then have "invoked (snd (forEach cbs d s)) = x" by simp
  with x show ?thesis by simp
qed

lemma emit_core:
  "snd (emit e d s) = s\<lparr>emitted := emitted s @ [(e, d)], invoked := invoked (snd (emit e d s))\<rparr>"
  unfolding emit_def by (subst forEach_core) simp

lemma emit_fields [simp]:
  "peerConnections (snd (emit e d s)) = peerConnections s"
  "dataChannels (snd (emit e d s)) = dataChannels s"
  "conns (snd (emit e d s)) = conns s"
  "chans (snd (emit e d s)) = chans s"
  "callbacks (snd (emit e d s)) = callbacks s"
  "localStream (snd (emit e d s)) = localStream s"
  "console (snd (emit e d s)) = console s"
  "emitted (snd (emit e d s)) = emitted s @ [(e, d)]"
  by (subst emit_core, simp)+

lemma wf_emit [simp]: "wf (snd (emit e d s)) = wf s"
  by (subst emit_core) simp

lemma nth_update_field:
  "(\<And>x. g (f x) = g x) \<Longrightarrow> g (xs[i := f (xs ! i)] ! j) = g (xs ! j)"
  by (cases "i = j"; cases "i < length xs") (simp_all add: list_update_beyond)

lemma wf_upd_conn [simp]:
  "(\<And>x. pc_peer (f x) = pc_peer x) \<Longrightarrow> wf (upd_conn pc f s) = wf s"
  by (simp add: wf_iff upd_conn_def nth_update_field)

lemma wf_upd_chan [simp]:
  "(\<And>x. ch_peer (f x) = ch_peer x) \<Longrightarrow> (\<And>x. ch_conn (f x) = ch_conn x) \<Longrightarrow>
   wf (upd_chan c f s) = wf s"
  by (simp add: wf_iff upd_chan_def nth_update_field)

lemma wf_pc_close [simp]: "wf (pc_close pc s) = wf s"
  by (simp add: wf_iff pc_close_def upd_conn_def nth_update_field cong: conj_cong) blast

lemma wf_ch_close [simp]: "wf (ch_close c s) = wf s"
  by (simp add: ch_close_def)

lemma wf_createPeerConnection: "wf s \<Longrightarrow> wf (snd (createPeerConnection p s))"
  unfolding wf_iff
  by (auto simp: createPeerConnection_def Let_def update_conv' distinct_update nth_append
        RTCPeerConnection_def less_Suc_eq)


lemma set_update_subset: "set (AList.update k v al) \<subseteq> insert (k, v) (set al)"
  by (induction al) auto

lemma distinct_snd_update:
  "distinct (map snd al) \<Longrightarrow> v \<notin> snd ` set al \<Longrightarrow> distinct (map snd (AList.update k v al))"
proof (induction al)
  case Nil
  then show ?case by simp
next
  case (Cons a al)
  have "snd a \<notin> snd ` set (AList.update k v al)"
    using Cons.prems set_update_subset [of k v al] by (auto simp: image_iff) 
  with Cons show ?case by (cases a) auto
qed

lemma distinct_snd_delete: "distinct (map snd al) \<Longrightarrow> distinct (map snd (AList.delete k al))"
  by (simp add: AList.delete_eq distinct_map_filter)

lemma wf_new_channel:
  "wf s \<Longrightarrow> pc < length (conns s) \<Longrightarrow> wf (s\<lparr>chans := chans s @ [RTCDataChannel pc l]\<rparr>)"
  unfolding wf_iff by (auto simp: nth_append less_Suc_eq RTCDataChannel_def)

lemma wf_fresh_channel: "wf s \<Longrightarrow> c \<in> snd ` set (dataChannels s) \<Longrightarrow> c < length (chans s)"
  unfolding wf_iff by auto

lemma wf_setupDataChannel:
  assumes "wf s" "c < length (chans s)" "c \<notin> snd ` set (dataChannels s)"
    "pc_peer (conns s ! ch_conn (chans s ! c)) = p"
  shows "wf (setupDataChannel p c s)"
proof -
  have ne: "\<And>q c'. map_of (dataChannels s) q = Some c' \<Longrightarrow> c' \<noteq> c"
    using assms(3) by (force dest: map_of_SomeD)
  show ?thesis
    using assms ne unfolding wf_iff
    by (auto simp: setupDataChannel_def upd_chan_def Let_def update_conv' distinct_update
        distinct_snd_update nth_list_update)
qed

lemma wf_createDataChannel: "wf s \<Longrightarrow> wf (snd (createDataChannel p l s))"
proof (cases "map_of (peerConnections s) p")
  case None
  assume "wf s" with None show ?thesis by (simp add: createDataChannel_def)
next
  case (Some pc)
  assume w: "wf s"
  then have pc: "pc < length (conns s)" "pc_peer (conns s ! pc) = p"
    using Some unfolding wf_iff by auto
  let ?s1 = "s\<lparr>chans := chans s @ [RTCDataChannel pc l]\<rparr>"
  have w1: "wf ?s1" using w pc(1) by (rule wf_new_channel)
  have "wf (setupDataChannel p (length (chans s)) ?s1)"
  proof (rule wf_setupDataChannel [OF w1])
    show "length (chans s) < length (chans ?s1)" by simp
    show "length (chans s) \<notin> snd ` set (dataChannels ?s1)"
      using wf_fresh_channel [OF w, of "length (chans s)"] by auto
    show "pc_peer (conns ?s1 ! ch_conn (chans ?s1 ! length (chans s))) = p"
      using pc by (simp add: RTCDataChannel_def)
  qed
  with w Some show ?thesis
    by (simp add: createDataChannel_def bind_def pc_createDataChannel_def)
qed

lemma wf_transport_datachannel:
  assumes w: "wf s" and pc: "pc < length (conns s)"
  shows "wf (transport_datachannel pc l s)"
proof -
  let ?s1 = "s\<lparr>chans := chans s @ [RTCDataChannel pc l]\<rparr>"
  have w1: "wf ?s1" using w pc by (rule wf_new_channel)
  have "wf (setupDataChannel (pc_peer (conns s ! pc)) (length (chans s)) ?s1)"
  proof (rule wf_setupDataChannel [OF w1])
    show "length (chans s) < length (chans ?s1)" by simp
    show "length (chans s) \<notin> snd ` set (dataChannels ?s1)"
      using wf_fresh_channel [OF w, of "length (chans s)"] by auto
    show "pc_peer (conns ?s1 ! ch_conn (chans ?s1 ! length (chans s))) = pc_peer (conns s ! pc)"
      by (simp add: RTCDataChannel_def)
  qed
  then show ?thesis by (simp add: transport_datachannel_def ondatachannel_def)
qed

lemma wf_delete:
  "wf s \<Longrightarrow> wf (s\<lparr>peerConnections := AList.delete p (peerConnections s)\<rparr>)"
  "wf s \<Longrightarrow> wf (s\<lparr>dataChannels := AList.delete p (dataChannels s)\<rparr>)"
  unfolding wf_iff by (auto simp: distinct_delete distinct_snd_delete delete_conv')

lemma wf_removePeer: "wf s \<Longrightarrow> wf (removePeer p s)"
  by (auto simp: removePeer_def Let_def wf_delete split: option.splits)

lemma wf_fold_close: "wf (fold (\<lambda>(peerId, pc). pc_close pc) xs s) = wf s"
  by (induction xs arbitrary: s) (auto simp: case_prod_beta)

lemma wf_clear: "wf s \<Longrightarrow> wf (s\<lparr>peerConnections := [], dataChannels := []\<rparr>)"
  unfolding wf_iff by simp

lemma wf_closeAll: "wf s \<Longrightarrow> wf (closeAll s)"
  by (simp add: closeAll_def Let_def wf_clear wf_fold_close)

lemma wf_constructor: "wf constructor"
  by (simp add: wf_def constructor_def)

lemma wf_createOffer: "wf s \<Longrightarrow> wf (snd (createOffer p s))"
  by (auto simp: createOffer_def bind_def pc_createOffer_def pc_setLocalDescription_def
      wf_createPeerConnection split: option.splits)

lemma wf_handleAnswer: "wf s \<Longrightarrow> wf (snd (handleAnswer p d s))"
  by (auto simp: handleAnswer_def pc_setRemoteDescription_def split: option.splits)

lemma wf_negotiate:
  "wf s0 \<Longrightarrow>
   wf (snd (bind (pc_setRemoteDescription pc offer)
           (\<lambda>_. bind (pc_createAnswer pc)
             (\<lambda>answer. bind (pc_setLocalDescription pc answer)
               (\<lambda>_ s3. (Return answer, s3)))) s0))"
  by (auto simp: bind_def pc_setRemoteDescription_def pc_createAnswer_def
      pc_setLocalDescription_def)

lemma wf_handleOffer: "wf s \<Longrightarrow> wf (snd (handleOffer p d s))"
  unfolding handleOffer_def
  by (cases "map_of (peerConnections s) p"; cases "createPeerConnection p s")
     (use wf_createPeerConnection [of s p] in \<open>auto intro!: wf_negotiate\<close>)

lemma wf_try_addIceCandidate:
  "wf s \<Longrightarrow> wf (snd (bind (RTCIceCandidate c) (pc_addIceCandidate pc) s))"
  by (cases "(c, s)" rule: RTCIceCandidate.cases)
     (auto simp: bind_def pc_addIceCandidate_def)

lemma wf_addIceCandidate: "wf s \<Longrightarrow> wf (snd (addIceCandidate p c s))"
proof (cases "map_of (peerConnections s) p")
  case None
  assume "wf s" with None show ?thesis by (simp add: addIceCandidate_def)
next
  case (Some pc)
  assume "wf s"
  then have "wf (snd (bind (RTCIceCandidate c) (pc_addIceCandidate pc) s))"
    by (rule wf_try_addIceCandidate)
  with Some show ?thesis
    by (cases "bind (RTCIceCandidate c) (pc_addIceCandidate pc) s")
       (auto simp: addIceCandidate_def split: completion.splits)
qed

lemma send_json_Inr:
  "send_json f m ch = Inr ch' \<longleftrightarrow>
     (\<exists>j. m = Tree j \<and> readyState ch = ChOpen \<and> length (f j) \<le> maxMessageSize ch
          \<and> length (f j) \<le> room ch \<and> ch' = deliver (f j) ch)"
  by (cases m) (auto simp: send_json_def channel_send_def)

lemma send_json_fields:
  "send_json f m ch = Inr ch' \<Longrightarrow>
   ch_peer ch' = ch_peer ch \<and> ch_conn ch' = ch_conn ch \<and> readyState ch' = readyState ch"
  by (auto simp: send_json_Inr deliver_def)

lemma nth_update_same_field:
  "g x = g (xs ! i) \<Longrightarrow> g (xs[i := x] ! j) = g (xs ! j)"
  by (cases "i = j"; cases "i < length xs") (simp_all add: list_update_beyond)

lemma wf_set_channel:
  "wf s \<Longrightarrow> ch_peer ch = ch_peer (chans s ! c) \<Longrightarrow> ch_conn ch = ch_conn (chans s ! c) \<Longrightarrow>
   wf (s\<lparr>chans := (chans s)[c := ch]\<rparr>)"
  by (simp add: wf_iff nth_update_same_field)

lemma wf_on_channel: "wf s \<Longrightarrow> wf (snd (on_channel c (send_json f m) s))"
  by (cases "send_json f m (chans s ! c)")
     (auto simp: on_channel_def dest!: send_json_fields intro: wf_set_channel)

lemma wf_sendMessage: "wf s \<Longrightarrow> wf (snd (sendMessage f p m s))"
proof -
  assume w: "wf s"
  have "wf (snd (bind (on_channel c (send_json f m)) (\<lambda>_ s1. (Return True, s1)) s))" for c
    using wf_on_channel [OF w, of c f m]
    by (cases "on_channel c (send_json f m) s") (auto simp: bind_def split: completion.splits)
  with w show ?thesis by (auto simp: sendMessage_def split: option.splits)
qed

lemma wf_broadcast_loop: "wf s \<Longrightarrow> wf (snd (broadcast_loop f xs m s))"
proof (induction xs arbitrary: s)
  case Nil
  then show ?case by simp
next
  case (Cons a xs)
  obtain p c where a: "a = (p, c)" by (cases a)
  obtain r s1 where o: "on_channel c (send_json f m) s = (r, s1)"
    by (cases "on_channel c (send_json f m) s")
  have "wf s1" using wf_on_channel [OF Cons.prems, of c f m] o by simp
  with Cons a o show ?case by (cases r) (auto simp: bind_def)
qed

lemma wf_broadcast: "wf s \<Longrightarrow> wf (snd (broadcast f m s))"
  by (simp add: broadcast_def wf_broadcast_loop)

lemma wf_handleDisconnection: "wf s \<Longrightarrow> wf (snd (handleDisconnection p s))"
  unfolding handleDisconnection_def bind_def
  by (cases "emit ''peerDisconnected'' (PeerData p) s")
     (use wf_emit [of "''peerDisconnected''" "PeerData p" s] in
       \<open>auto split: completion.splits intro: wf_removePeer\<close>)

lemma wf_onconnectionstatechange: "wf s \<Longrightarrow> wf (snd (onconnectionstatechange pc s))"
proof -
  assume w: "wf s"
  let ?e = "emit ''connectionStateChange''
              (StateData (pc_peer (conns s ! pc)) (connectionState (conns s ! pc))) s"
  have "wf (snd ?e)" using w by simp
  then show ?thesis
    unfolding onconnectionstatechange_def Let_def bind_def
    by (cases ?e) (auto split: completion.splits intro: wf_handleDisconnection)
qed

lemma wf_handlers:
  "wf s \<Longrightarrow> wf (snd (onicecandidate pc co s))"
  "wf s \<Longrightarrow> wf (snd (oniceconnectionstatechange pc s))"
  "wf s \<Longrightarrow> wf (snd (ontrack pc streams track s))"
  "wf s \<Longrightarrow> wf (snd (onopen c s))"
  "wf s \<Longrightarrow> wf (snd (onclose c s))"
  by (cases co; simp add: oniceconnectionstatechange_def ontrack_def onopen_def onclose_def
      split: option.splits)+

lemma wf_onmessage: "wf s \<Longrightarrow> wf (snd (onmessage parse c x s))"
proof -
  assume w: "wf s"
  show ?thesis
  proof (cases "ch_peer (chans s ! c)")
    case None
    with w show ?thesis by (simp add: onmessage_def)
  next
    case (Some p)
    show ?thesis
    proof (cases "parse x")
      case None
      with Some w show ?thesis by (simp add: onmessage_def)
    next
      case (Some d)
      obtain r s1 where e: "emit ''dataChannelMessage'' (MessageData p d) s = (r, s1)"
        by (cases "emit ''dataChannelMessage'' (MessageData p d) s")
      have "wf s1" using w wf_emit [of "''dataChannelMessage''" "MessageData p d" s] e by simp
      with e Some \<open>ch_peer (chans s ! c) = Some p\<close> show ?thesis
        by (cases r) (simp_all add: onmessage_def)
    qed
  qed
qed

lemma wf_transport:
  "wf s \<Longrightarrow> wf (snd (transport_connectionstate pc st s))"
  "wf s \<Longrightarrow> wf (snd (transport_iceconnectionstate pc ist s))"
  "wf s \<Longrightarrow> wf (snd (transport_open c limit buffer s))"
  "wf s \<Longrightarrow> wf (snd (transport_close c s))"
  "wf s \<Longrightarrow> wf (transport_buffer c buffer s)"
  by (simp_all add: transport_connectionstate_def transport_iceconnectionstate_def
      transport_open_def transport_close_def transport_buffer_def
      wf_onconnectionstatechange wf_handlers)

theorem reachable_wf: "reachable s \<Longrightarrow> wf s"
proof (induction rule: reachable.induct)
  case r_constructor
  show ?case by (rule wf_constructor)
qed (simp_all add: setLocalStream_def on_def Let_def wf_createPeerConnection
      wf_createDataChannel wf_createOffer wf_handleOffer wf_handleAnswer wf_addIceCandidate
      wf_sendMessage wf_broadcast wf_removePeer wf_closeAll wf_handlers
      wf_transport wf_transport_datachannel wf_onmessage)

section \<open>Creating a data channel\<close>

text \<open>
  C10: \<^verbatim>\<open>createDataChannel(peerId)\<close> for a peer id with no registered connection returns
  \<^verbatim>\<open>null\<close> and leaves the whole state as it was: no connection and no channel is created
  or registered.
\<close>

theorem createDataChannel_unknown_peer:
  "map_of (peerConnections s) peerId = None \<Longrightarrow>
   createDataChannel peerId label s = (Return None, s)"
  by (simp add: createDataChannel_def)

theorem createDataChannel_unknown_peer_witness:
  "map_of (peerConnections with_bob) ''alice'' = None
   \<and> createDataChannel ''alice'' ''nextmeet'' with_bob = (Return None, with_bob)"
proof -
  have h: "map_of (peerConnections with_bob) ''alice'' = None"
    by (simp add: with_bob_def createPeerConnection_def constructor_def Let_def)
  show ?thesis using h createDataChannel_unknown_peer [OF h, of "''nextmeet''"] by simp
qed

section \<open>ICE candidates\<close>

lemma map_update_field:
  "(\<And>x. g (f x) = g x) \<Longrightarrow> map g (xs[i := f (xs ! i)]) = map g xs"
proof (cases "i < length xs")
  case True
  assume g: "\<And>x. g (f x) = g x"
  have "map g (xs[i := f (xs ! i)]) = (map g xs)[i := map g xs ! i]"
    using True by (simp add: map_update g)
  then show ?thesis by simp
next
  case False
  then show ?thesis by (simp add: list_update_beyond)
qed

lemma candidates_setDescription:
  "map candidates (conns (snd (pc_setRemoteDescription pc d s))) = map candidates (conns s)"
  "map candidates (conns (snd (pc_setLocalDescription pc d s))) = map candidates (conns s)"
  "map candidates (conns (snd (pc_createAnswer pc s))) = map candidates (conns s)"
  by (simp_all add: pc_setRemoteDescription_def pc_setLocalDescription_def pc_createAnswer_def
      upd_conn_def map_update_field)

lemma candidates_bind:
  assumes "\<And>s. map candidates (conns (snd (m s))) = map candidates (conns s)"
    and "\<And>v s. map candidates (conns (snd (f v s))) = map candidates (conns s)"
  shows "map candidates (conns (snd (bind m f s))) = map candidates (conns s)"
proof (cases "m s")
  case (Pair r s')
  then have s': "map candidates (conns s') = map candidates (conns s)"
    using assms(1) [of s] by simp
  show ?thesis
  proof (cases r)
    case (Return v)
    with Pair s' assms(2) [of v s'] show ?thesis by (simp add: bind_def)
  next
    case (Throw e)
    with Pair s' show ?thesis by (simp add: bind_def)
  qed
qed

lemma candidates_negotiate:
  "map candidates (conns (snd (bind (pc_setRemoteDescription pc offer)
           (\<lambda>_. bind (pc_createAnswer pc)
             (\<lambda>answer. bind (pc_setLocalDescription pc answer)
               (\<lambda>_ s3. (Return answer, s3)))) s0))) = map candidates (conns s0)"
  by (intro candidates_bind) (simp_all add: candidates_setDescription)

lemma candidates_handleAnswer:
  "map candidates (conns (snd (handleAnswer p d s))) = map candidates (conns s)"
  by (simp add: handleAnswer_def candidates_setDescription split: option.splits)

lemma candidates_handleOffer:
  "map candidates (conns (snd (handleOffer p d s))) =
     map candidates (conns s) @ (if map_of (peerConnections s) p = None then [[]] else [])"
proof (cases "map_of (peerConnections s) p")
  case None
  obtain pc s0 where c: "createPeerConnection p s = (pc, s0)"
    by (cases "createPeerConnection p s")
  then have "map candidates (conns s0) = map candidates (conns s) @ [[]]"
    by (auto simp: createPeerConnection_def Let_def RTCPeerConnection_def)
  with None c show ?thesis by (simp add: handleOffer_def candidates_negotiate)
next
  case (Some pc)
  then show ?thesis by (simp add: handleOffer_def candidates_negotiate)
qed

text \<open>
  C1, as stated, fails: there is no queue of pending candidates. Two candidates that
  arrive after the offer was sent and before the answer is applied go straight to the
  connection, which has no remote description and rejects them; the errors are logged.
  When the answer then sets the remote description, no candidate is applied: the
  connection has accepted none.
\<close>

theorem addIceCandidate_counterexample:
  "map_of (peerConnections offering) ''alice'' = Some 0
   \<and> remoteDescription (conns offering ! 0) = None
   \<and> remoteDescription (conns answered ! 0) = Some remote_answer
   \<and> candidates (conns answered ! 0) = []
   \<and> console answered =
       [(''Failed to add ICE candidate:'', InvalidStateError),
        (''Failed to add ICE candidate:'', InvalidStateError)]"
  by code_simp

text \<open>
  C1, amended: \<^verbatim>\<open>addIceCandidate\<close> for a peer with a registered connection hands the
  candidate to the connection at once and buffers nothing. When the connection has no
  remote description the candidate is rejected, the error is caught and logged, and
  nothing else changes: the candidate is dropped. When the connection is open, has a
  remote description and the candidate is well formed, the candidate is applied
  immediately, after the ones applied before. \<^verbatim>\<open>handleAnswer\<close> and \<^verbatim>\<open>handleOffer\<close> set the
  remote description of an open connection, and neither of them applies any candidate. So a candidate is never applied before the remote description
  is set, and one that came before it is never applied at all.
\<close>

theorem addIceCandidate_applies_or_drops:
  assumes "wf s" and "map_of (peerConnections s) peerId = Some pc"
  shows "(remoteDescription (conns s ! pc) = None \<longrightarrow>
            (\<exists>error. addIceCandidate peerId c s =
               (Return (), s\<lparr>console := console s @ [(''Failed to add ICE candidate:'', error)]\<rparr>)))
       \<and> (remoteDescription (conns s ! pc) \<noteq> None \<and> \<not> is_closed pc s
            \<and> RTCIceCandidate c s = (Return c, s) \<longrightarrow>
            addIceCandidate peerId c s =
              (Return (), upd_conn pc (\<lambda>x. x\<lparr>candidates := candidates x @ [c]\<rparr>) s)
            \<and> candidates (conns (snd (addIceCandidate peerId c s)) ! pc)
                = candidates (conns s ! pc) @ [c])
       \<and> (\<not> is_closed pc s \<longrightarrow>
            remoteDescription (conns (snd (handleAnswer peerId d s)) ! pc) = Some d)
       \<and> map candidates (conns (snd (handleAnswer peerId d s))) = map candidates (conns s)
       \<and> map candidates (conns (snd (handleOffer peerId d s))) = map candidates (conns s)
       \<and> (\<not> is_closed pc s \<longrightarrow>
            remoteDescription (conns (snd (handleOffer peerId d s)) ! pc) = Some d)"
proof -
  have pc: "pc < length (conns s)" using assms unfolding wf_iff by blast
  have a: "remoteDescription (conns s ! pc) = None \<longrightarrow>
            (\<exists>error. addIceCandidate peerId c s =
               (Return (), s\<lparr>console := console s @ [(''Failed to add ICE candidate:'', error)]\<rparr>))"
    using assms(2)
    by (cases "(c, s)" rule: RTCIceCandidate.cases)
       (auto simp: addIceCandidate_def bind_def pc_addIceCandidate_def)
  have b: "remoteDescription (conns s ! pc) \<noteq> None \<and> \<not> is_closed pc s
            \<and> RTCIceCandidate c s = (Return c, s) \<longrightarrow>
            addIceCandidate peerId c s =
              (Return (), upd_conn pc (\<lambda>x. x\<lparr>candidates := candidates x @ [c]\<rparr>) s)"
    using assms(2) by (auto simp: addIceCandidate_def bind_def pc_addIceCandidate_def)
  have b': "candidates (conns (upd_conn pc (\<lambda>x. x\<lparr>candidates := candidates x @ [c]\<rparr>) s) ! pc)
              = candidates (conns s ! pc) @ [c]"
    using pc by (simp add: upd_conn_def)
  have c: "\<not> is_closed pc s \<longrightarrow>
            remoteDescription (conns (snd (handleAnswer peerId d s)) ! pc) = Some d"
    using assms(2) pc by (simp add: handleAnswer_def pc_setRemoteDescription_def upd_conn_def)
  have c2: "\<not> is_closed pc s \<longrightarrow>
            remoteDescription (conns (snd (handleOffer peerId d s)) ! pc) = Some d"
    using assms(2) pc
    by (simp add: handleOffer_def bind_def pc_setRemoteDescription_def pc_createAnswer_def
        pc_setLocalDescription_def is_closed_def upd_conn_def)
  show ?thesis
    using a b b' c c2 assms(2) by (simp add: candidates_handleAnswer candidates_handleOffer)
qed

theorem addIceCandidate_applies_or_drops_witness:
  "wf answered \<and> map_of (peerConnections answered) ''alice'' = Some 0
   \<and> remoteDescription (conns answered ! 0) \<noteq> None \<and> \<not> is_closed 0 answered
   \<and> RTCIceCandidate cand1 answered = (Return cand1, answered)
   \<and> candidates (conns (snd (addIceCandidate ''alice'' cand1 answered)) ! 0) = [cand1]
   \<and> wf offering \<and> map_of (peerConnections offering) ''alice'' = Some 0
   \<and> remoteDescription (conns offering ! 0) = None
   \<and> fst (addIceCandidate ''alice'' cand1 offering) = Return ()
   \<and> candidates (conns (snd (addIceCandidate ''alice'' cand1 offering)) ! 0) = []
   \<and> remoteDescription (conns (snd (handleAnswer ''alice'' remote_answer offering)) ! 0)
       = Some remote_answer
   \<and> map candidates (conns (snd (handleAnswer ''alice'' remote_answer offering))) = [[]]"
proof -
  have w: "wf answered" "wf offering" by code_simp+
  have m: "map_of (peerConnections answered) ''alice'' = Some 0"
    "map_of (peerConnections offering) ''alice'' = Some 0" by code_simp+
  have a: "remoteDescription (conns answered ! 0) \<noteq> None" "\<not> is_closed 0 answered"
    "candidates (conns answered ! 0) = []" by code_simp+
  have o: "remoteDescription (conns offering ! 0) = None" "\<not> is_closed 0 offering"
    "map candidates (conns offering) = [[]]" "candidates (conns offering ! 0) = []"
    by code_simp+
  have c: "RTCIceCandidate cand1 answered = (Return cand1, answered)"
    by (simp add: cand1_def)
  have l: "0 < length (conns answered)" by code_simp
  from addIceCandidate_applies_or_drops [OF w(1) m(1), of cand1 remote_answer] a c l
  have 1: "candidates (conns (snd (addIceCandidate ''alice'' cand1 answered)) ! 0) = [cand1]"
    by (simp add: upd_conn_def)
  from addIceCandidate_applies_or_drops [OF w(2) m(2), of cand1 remote_answer] o
  obtain error where 2: "addIceCandidate ''alice'' cand1 offering =
      (Return (), offering\<lparr>console := console offering @ [(''Failed to add ICE candidate:'', error)]\<rparr>)"
    and 3: "remoteDescription (conns (snd (handleAnswer ''alice'' remote_answer offering)) ! 0)
       = Some remote_answer"
    and 4: "map candidates (conns (snd (handleAnswer ''alice'' remote_answer offering))) = [[]]"
    by auto
  show ?thesis using w m a o c 1 3 4 by (simp add: 2)
qed

section \<open>Creating a connection\<close>

text \<open>
  C3, as stated, fails: for a peer id whose connection is registered and connected,
  \<^verbatim>\<open>createPeerConnection\<close> neither fails nor returns the existing connection. It
  returns a new one and the map now refers to it; the earlier connection is still
  connected and no longer registered.
\<close>

theorem createPeerConnection_counterexample:
  "map_of (peerConnections alice_connected) ''alice'' = Some 0
   \<and> connectionState (conns alice_connected ! 0) = CConnected
   \<and> fst (createPeerConnection ''alice'' alice_connected) = 1
   \<and> map_of (peerConnections (snd (createPeerConnection ''alice'' alice_connected))) ''alice''
       = Some 1
   \<and> connectionState (conns (snd (createPeerConnection ''alice'' alice_connected)) ! 0)
       = CConnected"
  by code_simp

text \<open>
  C3, amended: \<^verbatim>\<open>createPeerConnection(peerId)\<close> always succeeds and always creates
  a new connection, carrying the local tracks, and registers it under the peer id: when
  the peer id already has a connection the entry is replaced (keeping one entry per peer
  id, at the same position), and the earlier connection object is left as it is. The
  channels and their map are not touched.
\<close>

theorem createPeerConnection_always_registers_new:
  "fst (createPeerConnection peerId s) = length (conns s)
   \<and> conns (snd (createPeerConnection peerId s)) =
       conns s @ [RTCPeerConnection\<lparr>pc_peer := peerId,
                    senders := (case localStream s of None \<Rightarrow> [] | Some stream \<Rightarrow> stream)\<rparr>]
   \<and> map_of (peerConnections (snd (createPeerConnection peerId s))) =
       (map_of (peerConnections s))(peerId \<mapsto> length (conns s))
   \<and> map fst (peerConnections (snd (createPeerConnection peerId s))) =
       (if peerId \<in> set (map fst (peerConnections s)) then map fst (peerConnections s)
        else map fst (peerConnections s) @ [peerId])
   \<and> dataChannels (snd (createPeerConnection peerId s)) = dataChannels s
   \<and> chans (snd (createPeerConnection peerId s)) = chans s"
  by (simp add: createPeerConnection_def Let_def update_conv' update_keys)

section \<open>Creating an offer\<close>

lemma createOffer_unknown_peer:
  "map_of (peerConnections s) peerId = None \<Longrightarrow>
   createOffer peerId s = (Throw TypeError, snd (createPeerConnection peerId s))"
  by (simp add: createOffer_def)

lemma createOffer_known_peer:
  "map_of (peerConnections s) peerId = Some pc \<Longrightarrow> \<not> is_closed pc s \<Longrightarrow>
   fst (createOffer peerId s) = Return (Description SdpOffer ''sdp'')"
  by (simp add: createOffer_def bind_def pc_createOffer_def pc_setLocalDescription_def
      is_closed_def upd_conn_def)

text \<open>
  C4 holds of the design and fails in the code: \<^verbatim>\<open>createOffer\<close> for a peer id with no
  connection creates and registers the connection and then throws a \<^verbatim>\<open>TypeError\<close>,
  because the new connection is not assigned to \<^verbatim>\<open>pc\<close>. \<^verbatim>\<open>handleOffer\<close>, which assigns
  it, returns an answer from the same state.
\<close>

theorem createOffer_unknown_peer_throws:
  "map_of (peerConnections constructor) ''alice'' = None
   \<and> fst (createOffer ''alice'' constructor) = Throw TypeError
   \<and> map_of (peerConnections (snd (createOffer ''alice'' constructor))) ''alice'' = Some 0
   \<and> fst (handleOffer ''alice'' remote_offer constructor) = Return (Description SdpAnswer ''sdp'')"
  by code_simp

section \<open>Sending and broadcasting\<close>

lemma on_channel_send_json:
  "on_channel c (send_json f m) s =
     (case send_json f m (chans s ! c) of
        Inl e \<Rightarrow> (Throw e, s)
      | Inr ch \<Rightarrow> (Return (), s\<lparr>chans := (chans s)[c := ch]\<rparr>))"
  by (simp add: on_channel_def)

text \<open>
  C5, as stated, fails: \<^verbatim>\<open>sendMessage\<close> has no \<^verbatim>\<open>try\<close>, so on an open channel it throws
  what \<^verbatim>\<open>JSON.stringify\<close> or \<^verbatim>\<open>channel.send\<close> throws: a \<^verbatim>\<open>TypeError\<close> for a message that
  cannot be serialised, an \<^verbatim>\<open>OperationError\<close> when the send buffer of the channel is full.
\<close>

theorem sendMessage_counterexample:
  "map_of (dataChannels two_peers) ''alice'' = Some 0
   \<and> readyState (chans two_peers ! 0) = ChOpen
   \<and> fst (sendMessage stringify_literal ''alice'' Unserialisable two_peers) = Throw TypeError
   \<and> map_of (dataChannels congested) ''alice'' = Some 0
   \<and> readyState (chans congested ! 0) = ChOpen
   \<and> fst (sendMessage stringify_literal ''alice'' (Tree JNull) congested) = Throw OperationError"
  by code_simp

text \<open>
  C5, amended: \<^verbatim>\<open>sendMessage(peerId, message)\<close> returns \<^verbatim>\<open>false\<close> and leaves the state as
  it is when the peer has no registered channel or the channel is not open. When the
  channel is open it evaluates \<^verbatim>\<open>channel.send(JSON.stringify(message))\<close>: if that throws,
  the exception leaves \<^verbatim>\<open>sendMessage\<close> and the state is as it was; otherwise it returns
  \<^verbatim>\<open>true\<close>, the serialised message is appended to what that channel has sent and
  nothing else changes. The expression throws exactly when the message cannot be
  serialised or the channel refuses the text.
\<close>

theorem sendMessage_false_true_or_throws:
  assumes "wf s"
  shows "(map_of (dataChannels s) peerId = None \<longrightarrow>
            sendMessage stringify peerId message s = (Return False, s))
       \<and> (\<forall>channel. map_of (dataChannels s) peerId = Some channel \<longrightarrow>
            (readyState (chans s ! channel) \<noteq> ChOpen \<longrightarrow>
               sendMessage stringify peerId message s = (Return False, s))
          \<and> (readyState (chans s ! channel) = ChOpen \<longrightarrow>
               (\<forall>e. send_json stringify message (chans s ! channel) = Inl e \<longrightarrow>
                  sendMessage stringify peerId message s = (Throw e, s))
             \<and> (\<forall>ch. send_json stringify message (chans s ! channel) = Inr ch \<longrightarrow>
                  sendMessage stringify peerId message s =
                    (Return True, s\<lparr>chans := (chans s)[channel := ch]\<rparr>)
                  \<and> chans (snd (sendMessage stringify peerId message s)) ! channel = ch
                  \<and> (\<exists>j. message = Tree j \<and> sent ch = sent (chans s ! channel) @ [stringify j]))))
       \<and> (send_json stringify message ch0 = Inl e0 \<longleftrightarrow>
            message = Unserialisable \<and> e0 = TypeError
          \<or> (\<exists>j. message = Tree j \<and> channel_send ch0 (stringify j) = Inl e0))"
proof -
  have len: "\<And>channel. map_of (dataChannels s) peerId = Some channel \<Longrightarrow>
      channel < length (chans s)"
    using assms unfolding wf_iff by blast
  have 1: "map_of (dataChannels s) peerId = None \<longrightarrow>
            sendMessage stringify peerId message s = (Return False, s)"
    by (simp add: sendMessage_def)
  have 2: "(readyState (chans s ! channel) \<noteq> ChOpen \<longrightarrow>
               sendMessage stringify peerId message s = (Return False, s))
          \<and> (readyState (chans s ! channel) = ChOpen \<longrightarrow>
               (\<forall>e. send_json stringify message (chans s ! channel) = Inl e \<longrightarrow>
                  sendMessage stringify peerId message s = (Throw e, s))
             \<and> (\<forall>ch. send_json stringify message (chans s ! channel) = Inr ch \<longrightarrow>
                  sendMessage stringify peerId message s =
                    (Return True, s\<lparr>chans := (chans s)[channel := ch]\<rparr>)
                  \<and> chans (snd (sendMessage stringify peerId message s)) ! channel = ch
                  \<and> (\<exists>j. message = Tree j \<and> sent ch = sent (chans s ! channel) @ [stringify j])))"
    if m: "map_of (dataChannels s) peerId = Some channel" for channel
  proof (cases "send_json stringify message (chans s ! channel)")
    case (Inl e)
    with m show ?thesis
      by (simp add: sendMessage_def bind_def on_channel_send_json)
  next
    case (Inr ch)
    then have "\<exists>j. message = Tree j \<and> sent ch = sent (chans s ! channel) @ [stringify j]"
      by (auto simp: send_json_Inr deliver_def)
    with m len [OF m] Inr show ?thesis
      by (simp add: sendMessage_def bind_def on_channel_send_json)
  qed
  have 3: "send_json stringify message ch0 = Inl e0 \<longleftrightarrow>
            message = Unserialisable \<and> e0 = TypeError
          \<or> (\<exists>j. message = Tree j \<and> channel_send ch0 (stringify j) = Inl e0)"
    by (cases message) (auto simp: send_json_def)
  from 1 2 3 show ?thesis by blast
qed

theorem sendMessage_false_true_or_throws_witness:
  "wf two_peers
   \<and> map_of (dataChannels two_peers) ''alice'' = Some 0
   \<and> readyState (chans two_peers ! 0) = ChOpen
   \<and> send_json stringify_literal (Tree JNull) (chans two_peers ! 0)
       = Inr (deliver ''null'' (chans two_peers ! 0))
   \<and> fst (sendMessage stringify_literal ''alice'' (Tree JNull) two_peers) = Return True
   \<and> sent (chans (snd (sendMessage stringify_literal ''alice'' (Tree JNull) two_peers)) ! 0)
       = [''null'']
   \<and> send_json stringify_literal Unserialisable (chans two_peers ! 0) = Inl TypeError
   \<and> sendMessage stringify_literal ''alice'' Unserialisable two_peers = (Throw TypeError, two_peers)
   \<and> map_of (dataChannels two_peers) ''bob'' = Some 1
   \<and> readyState (chans two_peers ! 1) \<noteq> ChOpen
   \<and> sendMessage stringify_literal ''bob'' (Tree JNull) two_peers = (Return False, two_peers)
   \<and> map_of (dataChannels two_peers) ''carol'' = None
   \<and> sendMessage stringify_literal ''carol'' (Tree JNull) two_peers = (Return False, two_peers)"
proof -
  have w: "wf two_peers" by code_simp
  have a: "map_of (dataChannels two_peers) ''alice'' = Some 0"
    "readyState (chans two_peers ! 0) = ChOpen" by code_simp+
  have ok: "send_json stringify_literal (Tree JNull) (chans two_peers ! 0)
       = Inr (deliver ''null'' (chans two_peers ! 0))" by code_simp
  have s: "sent (deliver ''null'' (chans two_peers ! 0)) = [''null'']" by code_simp
  have bad: "send_json stringify_literal Unserialisable (chans two_peers ! 0) = Inl TypeError"
    by code_simp
  have b: "map_of (dataChannels two_peers) ''bob'' = Some 1"
    "readyState (chans two_peers ! 1) \<noteq> ChOpen" by code_simp+
  have c: "map_of (dataChannels two_peers) ''carol'' = None" by code_simp
  note A = sendMessage_false_true_or_throws
      [OF w, of "''alice''" stringify_literal "Tree JNull", THEN conjunct2, THEN conjunct1,
       rule_format, OF a(1), THEN conjunct2, rule_format, OF a(2),
       THEN conjunct2, rule_format, OF ok]
  have 1: "fst (sendMessage stringify_literal ''alice'' (Tree JNull) two_peers) = Return True"
    using A [THEN conjunct1] by simp
  have 2: "sent (chans (snd (sendMessage stringify_literal ''alice'' (Tree JNull) two_peers)) ! 0)
       = [''null'']"
    using A [THEN conjunct2, THEN conjunct1] s by simp
  note B = sendMessage_false_true_or_throws
      [OF w, of "''alice''" stringify_literal Unserialisable, THEN conjunct2, THEN conjunct1,
       rule_format, OF a(1), THEN conjunct2, rule_format, OF a(2),
       THEN conjunct1, rule_format, OF bad]
  note C = sendMessage_false_true_or_throws
      [OF w, of "''bob''" stringify_literal "Tree JNull", THEN conjunct2, THEN conjunct1,
       rule_format, OF b(1), THEN conjunct1, rule_format, OF b(2)]
  note D = sendMessage_false_true_or_throws
      [OF w, of "''carol''" stringify_literal "Tree JNull", THEN conjunct1, rule_format, OF c]
  show ?thesis
    by (intro conjI) (rule w a ok 1 2 bad B b C c D)+
qed

lemma broadcast_loop_chans_only: "\<exists>chs. snd (broadcast_loop f xs m s) = s\<lparr>chans := chs\<rparr>"
proof (induction xs arbitrary: s)
  case Nil
  have "s = s\<lparr>chans := chans s\<rparr>" by simp
  then show ?case by (metis broadcast_loop.simps(1) snd_conv)
next
  case (Cons a xs)
  obtain p c where a: "a = (p, c)" by (cases a)
  show ?case
  proof (cases "readyState (chans s ! c) = ChOpen")
    case False
    with Cons.IH [of s] a show ?thesis by simp
  next
    case True
    show ?thesis
    proof (cases "send_json f m (chans s ! c)")
      case (Inl e)
      have "s = s\<lparr>chans := chans s\<rparr>" by simp
      then have "\<exists>chs. s = s\<lparr>chans := chs\<rparr>" by (rule exI)
      with Inl True a show ?thesis by (simp add: bind_def on_channel_send_json)
    next
      case (Inr ch)
      let ?s1 = "s\<lparr>chans := (chans s)[c := ch]\<rparr>"
      have l: "broadcast_loop f (a # xs) m s = broadcast_loop f xs m ?s1"
        using True a Inr by (simp add: bind_def on_channel_send_json)
      obtain chs where "snd (broadcast_loop f xs m ?s1) = ?s1\<lparr>chans := chs\<rparr>"
        using Cons.IH [of ?s1] by blast
      then have "snd (broadcast_loop f xs m ?s1) = s\<lparr>chans := chs\<rparr>" by simp
      then show ?thesis unfolding l by (rule exI)
    qed
  qed
qed

lemma broadcast_loop_frame:
  "length (chans (snd (broadcast_loop f xs m s))) = length (chans s)
   \<and> (\<forall>c. c \<notin> snd ` set xs \<or> readyState (chans s ! c) \<noteq> ChOpen \<longrightarrow>
          chans (snd (broadcast_loop f xs m s)) ! c = chans s ! c)"
proof (induction xs arbitrary: s)
  case Nil
  then show ?case by simp
next
  case (Cons a xs)
  obtain p c where a: "a = (p, c)" by (cases a)
  show ?case
  proof (cases "readyState (chans s ! c) = ChOpen")
    case False
    with Cons.IH [of s] a show ?thesis by auto
  next
    case True
    show ?thesis
    proof (cases "send_json f m (chans s ! c)")
      case (Inl e)
      with True a show ?thesis by (simp add: bind_def on_channel_send_json)
    next
      case (Inr ch)
      let ?s1 = "s\<lparr>chans := (chans s)[c := ch]\<rparr>"
      have l: "broadcast_loop f (a # xs) m s = broadcast_loop f xs m ?s1"
        using True a Inr by (simp add: bind_def on_channel_send_json)
      have r: "readyState ch = ChOpen" using Inr True by (auto dest: send_json_fields)
      have o: "readyState (chans ?s1 ! c') = readyState (chans s ! c')" for c'
        using r True by (simp add: nth_update_same_field)
      have f1: "chans (snd (broadcast_loop f xs m ?s1)) ! c' = chans s ! c'"
        if "c' \<notin> snd ` set (a # xs) \<or> readyState (chans s ! c') \<noteq> ChOpen" for c'
      proof -
        have ne: "c' \<noteq> c" using that True a by auto
        have "c' \<notin> snd ` set xs \<or> readyState (chans ?s1 ! c') \<noteq> ChOpen"
          using that o by auto
        then have "chans (snd (broadcast_loop f xs m ?s1)) ! c' = chans ?s1 ! c'"
          using Cons.IH [of ?s1] by blast
        with ne show ?thesis by simp
      qed
      have f2: "length (chans (snd (broadcast_loop f xs m ?s1))) = length (chans s)"
        using Cons.IH [of ?s1] by simp
      show ?thesis unfolding l using f1 f2 by blast
    qed
  qed
qed

lemma broadcast_loop_all_accept:
  assumes "distinct (map snd xs)" and "\<forall>c\<in>snd ` set xs. c < length (chans s)"
    and "\<forall>c\<in>snd ` set xs. readyState (chans s ! c) = ChOpen \<longrightarrow>
           (\<exists>ch. send_json f m (chans s ! c) = Inr ch)"
  shows "fst (broadcast_loop f xs m s) = Return ()
       \<and> (\<forall>c\<in>snd ` set xs. readyState (chans s ! c) = ChOpen \<longrightarrow>
            send_json f m (chans s ! c) = Inr (chans (snd (broadcast_loop f xs m s)) ! c))"
  using assms
proof (induction xs arbitrary: s)
  case Nil
  then show ?case by simp
next
  case (Cons a xs)
  obtain p c where a: "a = (p, c)" by (cases a)
  have c: "c < length (chans s)" "c \<notin> snd ` set xs" and d: "distinct (map snd xs)"
    and b: "\<forall>c\<in>snd ` set xs. c < length (chans s)"
    using Cons.prems a by auto
  show ?case
  proof (cases "readyState (chans s ! c) = ChOpen")
    case False
    have "\<forall>c\<in>snd ` set xs. readyState (chans s ! c) = ChOpen \<longrightarrow>
           (\<exists>ch. send_json f m (chans s ! c) = Inr ch)"
      using Cons.prems(3) by auto
    from Cons.IH [OF d b this] False a show ?thesis by auto
  next
    case True
    then obtain ch where ch: "send_json f m (chans s ! c) = Inr ch"
      using Cons.prems(3) a by auto
    let ?s1 = "s\<lparr>chans := (chans s)[c := ch]\<rparr>"
    have l: "broadcast_loop f (a # xs) m s = broadcast_loop f xs m ?s1"
      using True a ch by (simp add: bind_def on_channel_send_json)
    have same: "chans ?s1 ! c' = chans s ! c'" if "c' \<in> snd ` set xs" for c'
    proof -
      have "c' \<noteq> c" using that c(2) by auto
      then show ?thesis by simp
    qed
    have b1: "\<forall>c\<in>snd ` set xs. c < length (chans ?s1)" using b by simp
    have a1: "\<forall>c\<in>snd ` set xs. readyState (chans ?s1 ! c) = ChOpen \<longrightarrow>
           (\<exists>ch. send_json f m (chans ?s1 ! c) = Inr ch)"
      using Cons.prems(3) same by auto
    note IH = Cons.IH [OF d b1 a1]
    have "chans (snd (broadcast_loop f xs m ?s1)) ! c = chans ?s1 ! c"
      using broadcast_loop_frame [of f xs m ?s1] c(2) by blast
    then have here: "chans (snd (broadcast_loop f xs m ?s1)) ! c = ch"
      using c(1) by simp
    show ?thesis
      unfolding l using IH same here ch a by auto
  qed
qed

lemma broadcast_loop_append:
  "broadcast_loop f (pre @ rest) m s =
     (case broadcast_loop f pre m s of
        (Throw e, s') \<Rightarrow> (Throw e, s')
      | (Return v, s') \<Rightarrow> broadcast_loop f rest m s')"
proof (induction pre arbitrary: s)
  case Nil
  then show ?case by simp
next
  case (Cons a pre)
  obtain p c where a: "a = (p, c)" by (cases a)
  show ?case
  proof (cases "readyState (chans s ! c) = ChOpen")
    case False
    with Cons a show ?thesis by simp
  next
    case True
    show ?thesis
    proof (cases "on_channel c (send_json f m) s")
      case (Pair r s1)
      with True a Cons [of s1] show ?thesis by (cases r) (simp_all add: bind_def)
    qed
  qed
qed

lemma broadcast_loop_first_refusal:
  assumes "distinct (map snd (pre @ (p, c) # post))"
    and "\<forall>c\<in>snd ` set (pre @ (p, c) # post). c < length (chans s)"
    and "\<forall>c\<in>snd ` set pre. readyState (chans s ! c) = ChOpen \<longrightarrow>
           (\<exists>ch. send_json f m (chans s ! c) = Inr ch)"
    and "readyState (chans s ! c) = ChOpen" and "send_json f m (chans s ! c) = Inl e"
  shows "fst (broadcast_loop f (pre @ (p, c) # post) m s) = Throw e
       \<and> (\<forall>c'\<in>snd ` set pre. readyState (chans s ! c') = ChOpen \<longrightarrow>
            send_json f m (chans s ! c')
              = Inr (chans (snd (broadcast_loop f (pre @ (p, c) # post) m s)) ! c'))
       \<and> (\<forall>c'\<in>snd ` set ((p, c) # post).
            chans (snd (broadcast_loop f (pre @ (p, c) # post) m s)) ! c' = chans s ! c')"
proof -
  obtain r s1 where pre: "broadcast_loop f pre m s = (r, s1)"
    by (cases "broadcast_loop f pre m s")
  have d: "distinct (map snd pre)" and b: "\<forall>c\<in>snd ` set pre. c < length (chans s)"
    and out: "\<forall>c'\<in>snd ` set ((p, c) # post). c' \<notin> snd ` set pre"
    using assms(1,2) by auto
  from broadcast_loop_all_accept [OF d b assms(3)] pre
  have r: "r = Return ()"
    and got: "\<forall>c\<in>snd ` set pre. readyState (chans s ! c) = ChOpen \<longrightarrow>
            send_json f m (chans s ! c) = Inr (chans s1 ! c)"
    by simp_all
  have fr: "chans s1 ! c' = chans s ! c'" if "c' \<in> snd ` set ((p, c) # post)" for c'
    using broadcast_loop_frame [of f pre m s] pre out that by auto
  have here: "chans s1 ! c = chans s ! c" using fr by simp
  have "broadcast_loop f ((p, c) # post) m s1 = (Throw e, s1)"
    using assms(4,5) here by (simp add: bind_def on_channel_send_json)
  then have "broadcast_loop f (pre @ (p, c) # post) m s = (Throw e, s1)"
    by (simp add: broadcast_loop_append pre r)
  with got fr show ?thesis by simp
qed

text \<open>
  C6, as stated, fails: both channels are open, the send to alice's channel, the first
  in the map, throws because its buffer is full, the exception leaves \<^verbatim>\<open>broadcast\<close> from
  inside the loop, and bob's open channel never gets the message. A message that cannot
  be serialised reaches no open channel at all.
\<close>

theorem broadcast_counterexample:
  "map_of (dataChannels congested) ''alice'' = Some 0
   \<and> map_of (dataChannels congested) ''bob'' = Some 1
   \<and> readyState (chans congested ! 0) = ChOpen
   \<and> readyState (chans congested ! 1) = ChOpen
   \<and> fst (broadcast stringify_literal (Tree JNull) congested) = Throw OperationError
   \<and> sent (chans (snd (broadcast stringify_literal (Tree JNull) congested)) ! 1) = []
   \<and> fst (broadcast stringify_literal Unserialisable congested) = Throw TypeError"
  by code_simp

text \<open>
  C6, amended: \<^verbatim>\<open>broadcast(message)\<close> changes channels only and never changes a channel
  that is not registered or not open at the call: no closed or absent channel gets the
  message. It visits the registered channels in the order of the map and evaluates
  \<^verbatim>\<open>channel.send(JSON.stringify(message))\<close> on each open one. When none of these throws,
  \<^verbatim>\<open>broadcast\<close> returns and every registered open channel has got the serialised message,
  once. When the first throw is at some open channel, that exception leaves
  \<^verbatim>\<open>broadcast\<close>: the open channels before it in the map have got the message, that channel
  and all channels after it are as they were.
\<close>

theorem broadcast_delivers_until_send_throws:
  assumes "wf s"
  shows "snd (broadcast stringify message s)
           = s\<lparr>chans := chans (snd (broadcast stringify message s))\<rparr>
       \<and> length (chans (snd (broadcast stringify message s))) = length (chans s)
       \<and> (\<forall>c. c \<notin> snd ` set (dataChannels s) \<or> readyState (chans s ! c) \<noteq> ChOpen \<longrightarrow>
            chans (snd (broadcast stringify message s)) ! c = chans s ! c)
       \<and> ((\<forall>c\<in>snd ` set (dataChannels s). readyState (chans s ! c) = ChOpen \<longrightarrow>
               (\<exists>ch. send_json stringify message (chans s ! c) = Inr ch)) \<longrightarrow>
            fst (broadcast stringify message s) = Return ()
            \<and> (\<forall>peerId c. map_of (dataChannels s) peerId = Some c
                   \<and> readyState (chans s ! c) = ChOpen \<longrightarrow>
                 send_json stringify message (chans s ! c)
                   = Inr (chans (snd (broadcast stringify message s)) ! c)))
       \<and> (\<forall>pre peerId c post e.
            dataChannels s = pre @ (peerId, c) # post
            \<and> (\<forall>c'\<in>snd ` set pre. readyState (chans s ! c') = ChOpen \<longrightarrow>
                 (\<exists>ch. send_json stringify message (chans s ! c') = Inr ch))
            \<and> readyState (chans s ! c) = ChOpen
            \<and> send_json stringify message (chans s ! c) = Inl e \<longrightarrow>
            fst (broadcast stringify message s) = Throw e
            \<and> (\<forall>c'\<in>snd ` set pre. readyState (chans s ! c') = ChOpen \<longrightarrow>
                 send_json stringify message (chans s ! c')
                   = Inr (chans (snd (broadcast stringify message s)) ! c'))
            \<and> (\<forall>c'\<in>snd ` set ((peerId, c) # post).
                 chans (snd (broadcast stringify message s)) ! c' = chans s ! c'))
       \<and> (send_json stringify message ch0 = Inr ch1 \<longrightarrow>
            (\<exists>j. message = Tree j \<and> sent ch1 = sent ch0 @ [stringify j]))"
proof -
  have d: "distinct (map snd (dataChannels s))"
    and b: "\<forall>c\<in>snd ` set (dataChannels s). c < length (chans s)"
    using assms unfolding wf_iff by auto
  have m: "c \<in> snd ` set (dataChannels s)" if "map_of (dataChannels s) p = Some c" for p c
  proof -
    have "snd (p, c) \<in> snd ` set (dataChannels s)"
      using that by (intro imageI map_of_SomeD)
    then show ?thesis by simp
  qed
  obtain chs where chs: "snd (broadcast stringify message s) = s\<lparr>chans := chs\<rparr>"
    unfolding broadcast_def using broadcast_loop_chans_only by blast
  then have "chans (snd (broadcast stringify message s)) = chs" by simp
  with chs have 1: "snd (broadcast stringify message s)
           = s\<lparr>chans := chans (snd (broadcast stringify message s))\<rparr>" by simp
  have 2: "length (chans (snd (broadcast stringify message s))) = length (chans s)"
    and 3: "\<forall>c. c \<notin> snd ` set (dataChannels s) \<or> readyState (chans s ! c) \<noteq> ChOpen \<longrightarrow>
            chans (snd (broadcast stringify message s)) ! c = chans s ! c"
    unfolding broadcast_def
    using broadcast_loop_frame [of stringify "dataChannels s" message s] by blast+
  have 4: "fst (broadcast stringify message s) = Return ()
            \<and> (\<forall>peerId c. map_of (dataChannels s) peerId = Some c
                   \<and> readyState (chans s ! c) = ChOpen \<longrightarrow>
                 send_json stringify message (chans s ! c)
                   = Inr (chans (snd (broadcast stringify message s)) ! c))"
    if a: "\<forall>c\<in>snd ` set (dataChannels s). readyState (chans s ! c) = ChOpen \<longrightarrow>
               (\<exists>ch. send_json stringify message (chans s ! c) = Inr ch)"
    unfolding broadcast_def
    using broadcast_loop_all_accept [OF d b a] m by blast
  have 5: "fst (broadcast stringify message s) = Throw e
            \<and> (\<forall>c'\<in>snd ` set pre. readyState (chans s ! c') = ChOpen \<longrightarrow>
                 send_json stringify message (chans s ! c')
                   = Inr (chans (snd (broadcast stringify message s)) ! c'))
            \<and> (\<forall>c'\<in>snd ` set ((peerId, c) # post).
                 chans (snd (broadcast stringify message s)) ! c' = chans s ! c')"
    if h: "dataChannels s = pre @ (peerId, c) # post
            \<and> (\<forall>c'\<in>snd ` set pre. readyState (chans s ! c') = ChOpen \<longrightarrow>
                 (\<exists>ch. send_json stringify message (chans s ! c') = Inr ch))
            \<and> readyState (chans s ! c) = ChOpen
            \<and> send_json stringify message (chans s ! c) = Inl e"
    for pre peerId c post e
  proof -
    from h have eq: "dataChannels s = pre @ (peerId, c) # post" by blast
    have d': "distinct (map snd (pre @ (peerId, c) # post))"
      and b': "\<forall>c\<in>snd ` set (pre @ (peerId, c) # post). c < length (chans s)"
      using d b unfolding eq by simp_all
    from h have a': "\<forall>c'\<in>snd ` set pre. readyState (chans s ! c') = ChOpen \<longrightarrow>
                 (\<exists>ch. send_json stringify message (chans s ! c') = Inr ch)"
      and o: "readyState (chans s ! c) = ChOpen"
      and e: "send_json stringify message (chans s ! c) = Inl e" by blast+
    show ?thesis
      unfolding broadcast_def eq
      by (rule broadcast_loop_first_refusal [OF d' b' a' o e])
  qed
  have 6: "send_json stringify message ch0 = Inr ch1 \<longrightarrow>
            (\<exists>j. message = Tree j \<and> sent ch1 = sent ch0 @ [stringify j])"
    by (auto simp: send_json_Inr deliver_def)
  from 4 have s4: "(\<forall>c\<in>snd ` set (dataChannels s). readyState (chans s ! c) = ChOpen \<longrightarrow>
               (\<exists>ch. send_json stringify message (chans s ! c) = Inr ch)) \<longrightarrow>
            fst (broadcast stringify message s) = Return ()
            \<and> (\<forall>peerId c. map_of (dataChannels s) peerId = Some c
                   \<and> readyState (chans s ! c) = ChOpen \<longrightarrow>
                 send_json stringify message (chans s ! c)
                   = Inr (chans (snd (broadcast stringify message s)) ! c))"
    by (rule impI)
  from 5 have s5: "\<forall>pre peerId c post e.
            dataChannels s = pre @ (peerId, c) # post
            \<and> (\<forall>c'\<in>snd ` set pre. readyState (chans s ! c') = ChOpen \<longrightarrow>
                 (\<exists>ch. send_json stringify message (chans s ! c') = Inr ch))
            \<and> readyState (chans s ! c) = ChOpen
            \<and> send_json stringify message (chans s ! c) = Inl e \<longrightarrow>
            fst (broadcast stringify message s) = Throw e
            \<and> (\<forall>c'\<in>snd ` set pre. readyState (chans s ! c') = ChOpen \<longrightarrow>
                 send_json stringify message (chans s ! c')
                   = Inr (chans (snd (broadcast stringify message s)) ! c'))
            \<and> (\<forall>c'\<in>snd ` set ((peerId, c) # post).
                 chans (snd (broadcast stringify message s)) ! c' = chans s ! c')"
    by (intro allI impI)
  show ?thesis
    by (intro conjI) (rule 1 2 3 s4 s5 6)+
qed

theorem broadcast_delivers_until_send_throws_witness:
  "wf two_peers
   \<and> dataChannels two_peers = [(''alice'', 0), (''bob'', 1)]
   \<and> readyState (chans two_peers ! 0) = ChOpen
   \<and> send_json stringify_literal (Tree JNull) (chans two_peers ! 0)
       = Inr (deliver ''null'' (chans two_peers ! 0))
   \<and> readyState (chans two_peers ! 1) = ChConnecting
   \<and> fst (broadcast stringify_literal (Tree JNull) two_peers) = Return ()
   \<and> sent (chans (snd (broadcast stringify_literal (Tree JNull) two_peers)) ! 0) = [''null'']
   \<and> chans (snd (broadcast stringify_literal (Tree JNull) two_peers)) ! 1 = chans two_peers ! 1
   \<and> wf congested
   \<and> dataChannels congested = [] @ (''alice'', 0) # [(''bob'', 1)]
   \<and> readyState (chans congested ! 0) = ChOpen
   \<and> send_json stringify_literal (Tree JNull) (chans congested ! 0) = Inl OperationError
   \<and> fst (broadcast stringify_literal (Tree JNull) congested) = Throw OperationError
   \<and> chans (snd (broadcast stringify_literal (Tree JNull) congested)) ! 1 = chans congested ! 1"
proof -
  have w: "wf two_peers" by code_simp
  have dc: "dataChannels two_peers = [(''alice'', 0), (''bob'', 1)]" by code_simp
  have a: "readyState (chans two_peers ! 0) = ChOpen" by code_simp
  have ok: "send_json stringify_literal (Tree JNull) (chans two_peers ! 0)
       = Inr (deliver ''null'' (chans two_peers ! 0))" by code_simp
  have s: "sent (deliver ''null'' (chans two_peers ! 0)) = [''null'']" by code_simp
  have b: "readyState (chans two_peers ! 1) = ChConnecting" by code_simp
  have ma: "map_of (dataChannels two_peers) ''alice'' = Some 0" by code_simp
  have all: "\<forall>c\<in>snd ` set (dataChannels two_peers). readyState (chans two_peers ! c) = ChOpen \<longrightarrow>
      (\<exists>ch. send_json stringify_literal (Tree JNull) (chans two_peers ! c) = Inr ch)"
  proof -
    have "readyState (chans two_peers ! Suc 0) \<noteq> ChOpen" using b by simp
    then show ?thesis by (simp add: dc ok)
  qed
  note T = broadcast_delivers_until_send_throws [OF w, of stringify_literal "Tree JNull"]
  note S = T [THEN conjunct2, THEN conjunct2, THEN conjunct2, THEN conjunct1, THEN mp, OF all]
  have 1: "fst (broadcast stringify_literal (Tree JNull) two_peers) = Return ()"
    by (rule S [THEN conjunct1])
  have "send_json stringify_literal (Tree JNull) (chans two_peers ! 0)
      = Inr (chans (snd (broadcast stringify_literal (Tree JNull) two_peers)) ! 0)"
    using S [THEN conjunct2, rule_format, of "''alice''" 0] ma a by simp
  then have 2: "sent (chans (snd (broadcast stringify_literal (Tree JNull) two_peers)) ! 0) = [''null'']"
    using ok s by simp
  have 3: "chans (snd (broadcast stringify_literal (Tree JNull) two_peers)) ! 1 = chans two_peers ! 1"
    using T [THEN conjunct2, THEN conjunct2, THEN conjunct1, rule_format, of 1] b by simp
  have w': "wf congested" by code_simp
  have dc': "dataChannels congested = [] @ (''alice'', 0) # [(''bob'', 1)]" by code_simp
  have a': "readyState (chans congested ! 0) = ChOpen" by code_simp
  have bad: "send_json stringify_literal (Tree JNull) (chans congested ! 0) = Inl OperationError"
    by code_simp
  have pre: "\<forall>c'\<in>snd ` set []. readyState (chans congested ! c') = ChOpen \<longrightarrow>
      (\<exists>ch. send_json stringify_literal (Tree JNull) (chans congested ! c') = Inr ch)"
    by simp
  have hyp: "dataChannels congested = [] @ (''alice'', 0) # [(''bob'', 1)]
      \<and> (\<forall>c'\<in>snd ` set []. readyState (chans congested ! c') = ChOpen \<longrightarrow>
           (\<exists>ch. send_json stringify_literal (Tree JNull) (chans congested ! c') = Inr ch))
      \<and> readyState (chans congested ! 0) = ChOpen
      \<and> send_json stringify_literal (Tree JNull) (chans congested ! 0) = Inl OperationError"
    using dc' pre a' bad by (intro conjI)
  note U = broadcast_delivers_until_send_throws [OF w', of stringify_literal "Tree JNull",
      THEN conjunct2, THEN conjunct2, THEN conjunct2, THEN conjunct2, THEN conjunct1,
      rule_format, OF hyp]
  have 4: "fst (broadcast stringify_literal (Tree JNull) congested) = Throw OperationError"
    by (rule U [THEN conjunct1])
  have 5: "chans (snd (broadcast stringify_literal (Tree JNull) congested)) ! 1 = chans congested ! 1"
    using U [THEN conjunct2, THEN conjunct2] by simp
  show ?thesis
    by (intro conjI) (rule w dc a ok b 1 2 3 w' dc' a' bad 4 5)+
qed

section \<open>Removing a peer\<close>

lemma delete_absent: "map_of al k = None \<Longrightarrow> AList.delete k al = al"
  by (simp add: map_of_eq_None_iff)

lemma close_fields [simp]:
  "peerConnections (pc_close pc s) = peerConnections s"
  "dataChannels (pc_close pc s) = dataChannels s"
  "emitted (pc_close pc s) = emitted s"
  "invoked (pc_close pc s) = invoked s"
  "console (pc_close pc s) = console s"
  "callbacks (pc_close pc s) = callbacks s"
  "localStream (pc_close pc s) = localStream s"
  "peerConnections (ch_close c s) = peerConnections s"
  "dataChannels (ch_close c s) = dataChannels s"
  "conns (ch_close c s) = conns s"
  "emitted (ch_close c s) = emitted s"
  "invoked (ch_close c s) = invoked s"
  "console (ch_close c s) = console s"
  "callbacks (ch_close c s) = callbacks s"
  "localStream (ch_close c s) = localStream s"
  by (simp_all add: pc_close_def ch_close_def upd_conn_def upd_chan_def)

lemma removePeer_maps:
  "peerConnections (removePeer p s) = AList.delete p (peerConnections s)"
  "dataChannels (removePeer p s) = AList.delete p (dataChannels s)"
  by (auto simp: removePeer_def Let_def delete_absent split: option.splits)


lemma removePeer_absent:
  "map_of (peerConnections (removePeer p s)) p = None"
  "map_of (dataChannels (removePeer p s)) p = None"
  by (simp_all add: removePeer_maps delete_conv')

lemma pc_close_conns:
  "conns (pc_close pc s) = (conns s)[pc := (conns s ! pc)\<lparr>connectionState := CClosed\<rparr>]"
  "chans (pc_close pc s) =
     map (\<lambda>ch. if ch_conn ch = pc then ch\<lparr>readyState := ChClosed\<rparr> else ch) (chans s)"
  by (simp_all add: pc_close_def upd_conn_def)

lemma removePeer_conns:
  "conns (removePeer p s) =
     (case map_of (peerConnections s) p of None \<Rightarrow> conns s
      | Some pc \<Rightarrow> (conns s)[pc := (conns s ! pc)\<lparr>connectionState := CClosed\<rparr>])"
  by (auto simp: removePeer_def Let_def pc_close_conns split: option.splits)

lemma removePeer_closes_connection:
  assumes "wf s" and "map_of (peerConnections s) p = Some pc"
  shows "connectionState (conns (removePeer p s) ! pc) = CClosed"
proof -
  have "pc < length (conns s)" using assms unfolding wf_iff by blast
  with assms(2) show ?thesis by (simp add: removePeer_conns)
qed

lemma removePeer_closes_channel:
  assumes "wf s" and "map_of (dataChannels s) p = Some c"
  shows "readyState (chans (removePeer p s) ! c) = ChClosing
       \<or> readyState (chans (removePeer p s) ! c) = ChClosed"
proof -
  have c: "c < length (chans s)" using assms unfolding wf_iff by blast
  show ?thesis
    using assms(2) c
    by (auto simp: removePeer_def Let_def ch_close_def upd_chan_def pc_close_conns
        split: option.splits)
qed



section \<open>Disconnection\<close>

lemma registered_frame [simp]:
  "registered e (upd_conn pc f s) = registered e s"
  "registered e (upd_chan c g s) = registered e s"
  "registered e (s\<lparr>invoked := i\<rparr>) = registered e s"
  by (simp_all add: registered_def upd_conn_def upd_chan_def)





section \<open>Closing everything\<close>

lemma fold_close_fields:
  "peerConnections (fold (\<lambda>(peerId, pc). pc_close pc) xs s) = peerConnections s"
  "dataChannels (fold (\<lambda>(peerId, pc). pc_close pc) xs s) = dataChannels s"
  "length (conns (fold (\<lambda>(peerId, pc). pc_close pc) xs s)) = length (conns s)"
  by (induction xs arbitrary: s) (auto simp: pc_close_conns)

lemma fold_close_conns:
  "x < length (conns s) \<Longrightarrow>
   conns (fold (\<lambda>(peerId, pc). pc_close pc) xs s) ! x =
     (if x \<in> snd ` set xs then (conns s ! x)\<lparr>connectionState := CClosed\<rparr> else conns s ! x)"
proof (induction xs arbitrary: s)
  case Nil
  then show ?case by simp
next
  case (Cons a xs)
  obtain p pc where a: "a = (p, pc)" by (cases a)
  have l: "x < length (conns (pc_close pc s))" using Cons.prems by (simp add: pc_close_conns)
  have step: "conns (pc_close pc s) ! x =
      (if x = pc then (conns s ! x)\<lparr>connectionState := CClosed\<rparr> else conns s ! x)"
    using Cons.prems by (simp add: pc_close_conns nth_list_update)
  have "conns (fold (\<lambda>(peerId, pc). pc_close pc) (a # xs) s) ! x =
      conns (fold (\<lambda>(peerId, pc). pc_close pc) xs (pc_close pc s)) ! x"
    using a by simp
  also have "\<dots> = (if x \<in> snd ` set xs
      then (conns (pc_close pc s) ! x)\<lparr>connectionState := CClosed\<rparr>
      else conns (pc_close pc s) ! x)"
    by (rule Cons.IH [OF l])
  also have "\<dots> = (if x \<in> snd ` set (a # xs)
      then (conns s ! x)\<lparr>connectionState := CClosed\<rparr> else conns s ! x)"
    unfolding step using a by auto
  finally show ?case .
qed

lemma fold_close_chans:
  "chans (fold (\<lambda>(peerId, pc). pc_close pc) xs s) =
     map (\<lambda>ch. if ch_conn ch \<in> snd ` set xs then ch\<lparr>readyState := ChClosed\<rparr> else ch) (chans s)"
proof (induction xs arbitrary: s)
  case Nil
  then show ?case by simp
next
  case (Cons a xs)
  obtain p pc where a: "a = (p, pc)" by (cases a)
  show ?case using a by (auto simp: Cons.IH pc_close_conns)
qed

lemma closeAll_result:
  assumes "wf s"
  shows "peerConnections (closeAll s) = [] \<and> dataChannels (closeAll s) = []
       \<and> (\<forall>p pc. map_of (peerConnections s) p = Some pc \<longrightarrow>
            connectionState (conns (closeAll s) ! pc) = CClosed)
       \<and> chans (closeAll s) =
           map (\<lambda>ch. if ch_conn ch \<in> snd ` set (peerConnections s)
                      then ch\<lparr>readyState := ChClosed\<rparr> else ch) (chans s)"
proof -
  have "connectionState (conns (closeAll s) ! pc) = CClosed"
    if "map_of (peerConnections s) p = Some pc" for p pc
  proof -
    have l: "pc < length (conns s)" using assms that unfolding wf_iff by blast
    have "snd (p, pc) \<in> snd ` set (peerConnections s)"
      using that by (intro imageI map_of_SomeD)
    then show ?thesis using l by (simp add: closeAll_def Let_def fold_close_conns)
  qed
  then show ?thesis by (simp add: closeAll_def Let_def fold_close_chans)
qed

text \<open>
  C8 holds of the design and fails in the code for \<^verbatim>\<open>closeAll\<close>: it closes the
  registered connections and clears both maps, and never calls \<^verbatim>\<open>close\<close> on a
  channel. A registered channel whose connection was replaced in the map is still open
  after \<^verbatim>\<open>closeAll\<close>, although it was registered at the call; \<^verbatim>\<open>removePeer\<close> on the
  same state does close it.
\<close>

theorem closeAll_leaves_channel_open:
  "map_of (dataChannels replaced) ''alice'' = Some 0
   \<and> readyState (chans replaced ! 0) = ChOpen
   \<and> peerConnections (closeAll replaced) = []
   \<and> dataChannels (closeAll replaced) = []
   \<and> readyState (chans (closeAll replaced) ! 0) = ChOpen
   \<and> readyState (chans (removePeer ''alice'' replaced) ! 0) = ChClosing"
  by code_simp

section \<open>Inbound messages\<close>

lemma onmessage_routes:
  assumes "ch_peer (chans s ! channel) = Some peerId"
  shows "(parse x = None \<longrightarrow>
            emitted (snd (onmessage parse channel x s)) =
              emitted s @ [(''dataChannelBinary'', BinaryData peerId x)])
       \<and> (\<forall>d. parse x = Some d \<longrightarrow>
            emitted (snd (onmessage parse channel x s)) =
              emitted s @ (''dataChannelMessage'', MessageData peerId d) #
                (if \<forall>c\<in>set (registered ''dataChannelMessage'' s).
                      \<not> cb_throws c (MessageData peerId d)
                 then [] else [(''dataChannelBinary'', BinaryData peerId x)]))"
proof (intro conjI allI impI)
  assume "parse x = None"
  with assms show "emitted (snd (onmessage parse channel x s)) =
              emitted s @ [(''dataChannelBinary'', BinaryData peerId x)]"
    by (simp add: onmessage_def)
next
  fix d assume p: "parse x = Some d"
  obtain r s1 where e: "emit ''dataChannelMessage'' (MessageData peerId d) s = (r, s1)"
    by (cases "emit ''dataChannelMessage'' (MessageData peerId d) s")
  have s1: "emitted s1 = emitted s @ [(''dataChannelMessage'', MessageData peerId d)]"
    using emit_fields(8) [of "''dataChannelMessage''" "MessageData peerId d" s] e by simp
  have r: "r = Return () \<longleftrightarrow>
      (\<forall>c\<in>set (registered ''dataChannelMessage'' s). \<not> cb_throws c (MessageData peerId d))"
    using emit_returns [of "''dataChannelMessage''" "MessageData peerId d" s] e by simp
  show "emitted (snd (onmessage parse channel x s)) =
              emitted s @ (''dataChannelMessage'', MessageData peerId d) #
                (if \<forall>c\<in>set (registered ''dataChannelMessage'' s).
                      \<not> cb_throws c (MessageData peerId d)
                 then [] else [(''dataChannelBinary'', BinaryData peerId x)])"
    using assms p e s1 r by (cases r) (auto simp: onmessage_def)
qed

text \<open>
  C9 holds of the design and fails in the code: the payload \<^verbatim>\<open>null\<close> parses, is
  emitted as \<^verbatim>\<open>dataChannelMessage\<close>, the listener throws on it inside the \<^verbatim>\<open>try\<close>
  block, and the \<^verbatim>\<open>catch\<close> emits the same payload as \<^verbatim>\<open>dataChannelBinary\<close>: both
  handlers receive it.
\<close>

theorem onmessage_parsed_payload_reaches_both_handlers:
  "parse_literal ''null'' = Some JNull
   \<and> ch_peer (chans listening ! 0) = Some ''alice''
   \<and> fst (onmessage parse_literal 0 ''null'' listening) = Return ()
   \<and> emitted (snd (onmessage parse_literal 0 ''null'' listening)) =
       emitted listening @ [(''dataChannelMessage'', MessageData ''alice'' JNull),
                            (''dataChannelBinary'', BinaryData ''alice'' ''null'')]
   \<and> invoked (snd (onmessage parse_literal 0 ''null'' listening)) =
       [(1, MessageData ''alice'' JNull), (2, BinaryData ''alice'' ''null'')]"
  by code_simp

end
